theory Spec2Isabelle
  imports Complex_Main "HOL-Library.Sublist" "HOL-Library.Multiset"
begin

section \<open>Emotion tracker: classifier, entry store and daily report\<close>

text \<open>
  A shallow embedding of \<^verbatim>\<open>src/main.py\<close>. Python strings are lists of code points; the
  model uses \<^typ>\<open>string\<close> and reads each \<^typ>\<open>char\<close> as a code point below 256, so the
  texts covered are those of the Latin-1 range. Python integers are \<^typ>\<open>int\<close>. Every place
  where the Python can raise is a branch returning \<open>Inl\<close>.
\<close>

subsection \<open>Errors and Python built-ins\<close>

datatype error =
    KeyError string        \<comment> \<open>\<^verbatim>\<open>d[k]\<close> with \<^verbatim>\<open>k\<close> missing\<close>
  | ValueError             \<comment> \<open>\<^verbatim>\<open>max\<close> of an empty sequence\<close>
  | OperationalError       \<comment> \<open>sqlite3: no such table\<close>

text \<open>\<^verbatim>\<open>d[k]\<close> on a dict.\<close>

definition dict_get :: "(string \<rightharpoonup> 'v) \<Rightarrow> string \<Rightarrow> error + 'v" where
  "dict_get d k = (case d k of None \<Rightarrow> Inl (KeyError k) | Some v \<Rightarrow> Inr v)"

text \<open>
  A dict under construction keeps its keys in insertion order: storing under a key that is
  present replaces the value in place, a new key goes to the end.
\<close>

fun dict_set :: "('k \<times> 'v) list \<Rightarrow> 'k \<Rightarrow> 'v \<Rightarrow> ('k \<times> 'v) list" where
  "dict_set [] k v = [(k, v)]"
| "dict_set ((k', v') # d) k v = (if k' = k then (k, v) # d else (k', v') # dict_set d k v)"

text \<open>
  \<^verbatim>\<open>max(iterable, key=f)\<close>: the first item is the candidate, and a later item replaces
  it only when its key is strictly greater. An empty iterable raises ValueError.
\<close>

fun py_max_from :: "('a \<Rightarrow> int) \<Rightarrow> 'a \<Rightarrow> 'a list \<Rightarrow> 'a" where
  "py_max_from f best [] = best"
| "py_max_from f best (x # xs) = py_max_from f (if f best < f x then x else best) xs"

fun py_max_key :: "('a \<Rightarrow> int) \<Rightarrow> 'a list \<Rightarrow> error + 'a" where
  "py_max_key f [] = Inl ValueError"
| "py_max_key f (x # xs) = Inr (py_max_from f x xs)"

text \<open>
  \<^verbatim>\<open>str.lower()\<close> on code points below 256: A to Z and the accented capitals
  U+00C0 to U+00DE (the multiplication sign U+00D7 apart) move up by 32.
\<close>

definition lower_char :: "char \<Rightarrow> char" where
  "lower_char c =
     (let n = (of_char c :: nat)
      in if (65 \<le> n \<and> n \<le> 90) \<or> (192 \<le> n \<and> n \<le> 222 \<and> n \<noteq> 215)
         then char_of (n + 32) else c)"

definition py_lower :: "string \<Rightarrow> string" where
  "py_lower text = map lower_char text"

text \<open>\<^verbatim>\<open>word in s\<close> on strings: \<^verbatim>\<open>word\<close> starts at some position of \<^verbatim>\<open>s\<close>.\<close>

fun contains :: "string \<Rightarrow> string \<Rightarrow> bool" where
  "contains w [] = (w = [])"
| "contains w (c # s) = (prefix w (c # s) \<or> contains w s)"

text \<open>
  \<^verbatim>\<open>str.strip()\<close>: leading and trailing white space goes. Below 256 the white-space
  code points are 9 to 13, 28 to 32, 133 and 160.
\<close>

definition is_space :: "char \<Rightarrow> bool" where
  "is_space c =
     (let n = (of_char c :: nat)
      in (9 \<le> n \<and> n \<le> 13) \<or> (28 \<le> n \<and> n \<le> 32) \<or> n = 133 \<or> n = 160)"

definition py_strip :: "string \<Rightarrow> string" where
  "py_strip s = rev (dropWhile is_space (rev (dropWhile is_space s)))"

subsection \<open>Configuration\<close>

text \<open>
  The module-level tables. They are mutable globals in Python, so the functions below
  take them as a \<open>config\<close> value; \<open>reference\<close> is the configuration of the source.
\<close>

definition EMOTIONS :: "string list" where
  "EMOTIONS = [''Energetic'', ''Motivated'', ''Neutral'', ''Tired'', ''Sad'', ''Angry'',
               ''Stressed'', ''Overwhelmed'']"

definition STRESS :: "string \<rightharpoonup> int" where
  "STRESS = map_of [(''Energetic'', 15), (''Motivated'', 20), (''Neutral'', 35),
                    (''Tired'', 55), (''Sad'', 65), (''Angry'', 70), (''Stressed'', 80),
                    (''Overwhelmed'', 95)]"

definition WORDS :: "string \<rightharpoonup> string list" where
  "WORDS = map_of
     [(''Energetic'', [''energetic'', ''excited'', ''pumped'', ''awesome'', ''amazing'']),
      (''Motivated'', [''motivated'', ''focused'', ''goal'', ''succeed'', ''study'']),
      (''Neutral'', [''okay'', ''fine'', ''normal'', ''alright'', ''meh'']),
      (''Tired'', [''tired'', ''exhausted'', ''sleepy'', ''sleep'', ''fatigue'']),
      (''Sad'', [''sad'', ''unhappy'', ''crying'', ''lonely'', ''miss'']),
      (''Angry'', [''angry'', ''mad'', ''furious'', ''hate'', ''annoyed'']),
      (''Stressed'', [''stressed'', ''exam'', ''deadline'', ''pressure'', ''worried'']),
      (''Overwhelmed'', [''overwhelmed'', ''cant'', ''panic'', ''help'', ''breaking''])]"

record config =
  cfg_emotions :: "string list"
  cfg_stress :: "string \<rightharpoonup> int"
  cfg_words :: "string \<rightharpoonup> string list"

definition reference :: config where
  "reference = \<lparr>cfg_emotions = EMOTIONS, cfg_stress = STRESS, cfg_words = WORDS\<rparr>"

subsection \<open>The classifier\<close>

text \<open>\<^verbatim>\<open>sum(1 for word in WORDS[emotion] if word in lower)\<close>, the keyword list given.\<close>

definition keyword_count :: "string list \<Rightarrow> string \<Rightarrow> int" where
  "keyword_count ws lower = sum_list (map (\<lambda>word. 1) (filter (\<lambda>word. contains word lower) ws))"

text \<open>
  The dict comprehension \<^verbatim>\<open>{emotion: sum(...) for emotion in EMOTIONS}\<close>: one entry
  per emotion, in the order of the list; \<^verbatim>\<open>WORDS[emotion]\<close> raises on a missing key.
\<close>

fun build_scores ::
  "(string \<rightharpoonup> string list) \<Rightarrow> string \<Rightarrow> string list \<Rightarrow> (string \<times> int) list
     \<Rightarrow> error + (string \<times> int) list" where
  "build_scores words lower [] scores = Inr scores"
| "build_scores words lower (emotion # rest) scores =
     (case dict_get words emotion of
        Inl err \<Rightarrow> Inl err
      | Inr ws \<Rightarrow> build_scores words lower rest (dict_set scores emotion (keyword_count ws lower)))"

text \<open>
  \<^verbatim>\<open>scores.get\<close> as the key function of \<^verbatim>\<open>max\<close>: it is applied to keys of
  \<^verbatim>\<open>scores\<close> only, where it returns the stored count.
\<close>

definition scores_get :: "(string \<times> int) list \<Rightarrow> string \<Rightarrow> int" where
  "scores_get scores k = the (map_of scores k)"

definition analyze_with :: "config \<Rightarrow> string \<Rightarrow> error + (string \<times> int)" where
  "analyze_with cfg text =
     (let lower = py_lower text in
      case build_scores (cfg_words cfg) lower (cfg_emotions cfg) [] of
        Inl err \<Rightarrow> Inl err
      | Inr scores \<Rightarrow>
          (case py_max_key id (map snd scores) of
             Inl err \<Rightarrow> Inl err
           | Inr highest \<Rightarrow>
               (case (if 0 < highest then py_max_key (scores_get scores) (map fst scores)
                      else Inr ''Neutral'') of
                  Inl err \<Rightarrow> Inl err
                | Inr best \<Rightarrow>
                    (case dict_get (cfg_stress cfg) best of
                       Inl err \<Rightarrow> Inl err
                     | Inr stress \<Rightarrow> Inr (best, stress)))))"

definition analyze :: "string \<Rightarrow> error + (string \<times> int)" where
  "analyze text = analyze_with reference text"

text \<open>
  The count the classifier holds for an emotion of the reference configuration, named for
  the statements below.
\<close>

definition match_count :: "string \<Rightarrow> string \<Rightarrow> int" where
  "match_count emotion text =
     (case WORDS emotion of None \<Rightarrow> 0 | Some ws \<Rightarrow> keyword_count ws (py_lower text))"

text \<open>The dict \<^verbatim>\<open>scores\<close> that \<open>analyze\<close> builds under the reference configuration.\<close>

definition ref_scores :: "string \<Rightarrow> (string \<times> int) list" where
  "ref_scores text = map (\<lambda>e. (e, match_count e text)) EMOTIONS"

subsection \<open>The entry store\<close>

text \<open>
  A row of the table \<^verbatim>\<open>entries\<close>. The column \<^verbatim>\<open>ts\<close> is filled by
  \<^verbatim>\<open>CURRENT_TIMESTAMP\<close>: the UTC time of the insert, to the second. The model keeps it as
  the number of seconds since the epoch; comparing these numbers orders the rows as comparing
  the stored texts \<^verbatim>\<open>YYYY-MM-DD HH:MM:SS\<close> does.
\<close>

record entry =
  e_id :: nat
  e_text :: string
  e_emotion :: string
  e_stress :: int
  e_ts :: int

text \<open>
  The database file: the rows of the table in rowid order, \<open>None\<close> while the table has not
  been created, and the counter that \<^verbatim>\<open>AUTOINCREMENT\<close> keeps in \<^verbatim>\<open>sqlite_sequence\<close>.
\<close>

record database =
  entries_table :: "entry list option"
  seq :: nat

text \<open>The calls \<open>db_exec\<close> makes on the sqlite3 module and on its connection.\<close>

datatype db_call = Connect | Execute | Fetchall | Commit | Close

text \<open>
  The header values and the lines of a report file. The rendering of these values into the
  text of the file is not modelled.
\<close>

record report_line =
  l_index :: nat
  l_ts :: int
  l_emotion :: string
  l_stress :: int

record report =
  r_date :: int
  r_total :: nat
  r_avg :: int
  r_dominant :: string
  r_lines :: "report_line list"

text \<open>
  What the program acts on: the database, the log of connection calls, and the folder
  \<^verbatim>\<open>daily_reports\<close> with its files, one per date. File operations are taken to succeed.
\<close>

record world =
  db :: database
  calls :: "db_call list"
  reports_dir :: bool
  report_files :: "int \<rightharpoonup> report"

text \<open>
  The clock: the UTC time in seconds since the epoch, and the offset of local time from UTC
  in seconds. Dates are day numbers. \<^verbatim>\<open>date.today()\<close> is the local date;
  \<^verbatim>\<open>DATE(ts)\<close> is the date of the stored UTC time.
\<close>

record clock =
  now_utc :: int
  utc_offset :: int

definition sql_DATE :: "int \<Rightarrow> int" where
  "sql_DATE ts = ts div 86400"

definition local_date :: "int \<Rightarrow> int \<Rightarrow> int" where
  "local_date offset t = (t + offset) div 86400"

definition date_today :: "clock \<Rightarrow> int" where
  "date_today clk = local_date (utc_offset clk) (now_utc clk)"

text \<open>
  \<open>db_exec\<close>: connect, execute, commit, close. A statement acts on the database and gives
  rows, or raises; when it raises, the exception leaves \<open>db_exec\<close> at the \<^verbatim>\<open>execute\<close>
  line, before \<^verbatim>\<open>commit\<close> and \<^verbatim>\<open>close\<close>.
\<close>

definition db_exec ::
  "(database \<Rightarrow> error + database \<times> 'r) \<Rightarrow> bool \<Rightarrow> world \<Rightarrow> (error + 'r option) \<times> world" where
  "db_exec query fetch w =
     (let w1 = w\<lparr>calls := calls w @ [Connect]\<rparr> in
      case query (db w1) of
        Inl err \<Rightarrow> (Inl err, w1\<lparr>calls := calls w1 @ [Execute]\<rparr>)
      | Inr (d, rows) \<Rightarrow>
          (let w2 = w1\<lparr>db := d, calls := calls w1 @ (if fetch then [Execute, Fetchall] else [Execute])\<rparr>;
               w3 = w2\<lparr>calls := calls w2 @ [Commit]\<rparr>;
               w4 = w3\<lparr>calls := calls w3 @ [Close]\<rparr>
           in (Inr (if fetch then Some rows else None), w4)))"

text \<open>The statements. All but \<^verbatim>\<open>CREATE TABLE IF NOT EXISTS\<close> fail when the table is missing.\<close>

definition sql_create_table :: "database \<Rightarrow> error + database \<times> unit" where
  "sql_create_table d =
     (case entries_table d of
        None \<Rightarrow> Inr (d\<lparr>entries_table := Some []\<rparr>, ())
      | Some rows \<Rightarrow> Inr (d, ()))"

text \<open>
  \<^verbatim>\<open>INSERT\<close>: the new id is one more than the largest of the ids in the table and the
  stored counter.
\<close>

definition sql_insert :: "string \<Rightarrow> string \<Rightarrow> int \<Rightarrow> int \<Rightarrow> database \<Rightarrow> error + database \<times> unit" where
  "sql_insert text emotion stress now d =
     (case entries_table d of
        None \<Rightarrow> Inl OperationalError
      | Some rows \<Rightarrow>
          (let i = Suc (fold max (map e_id rows) (seq d));
               row = \<lparr>e_id = i, e_text = text, e_emotion = emotion, e_stress = stress, e_ts = now\<rparr>
           in Inr (d\<lparr>entries_table := Some (rows @ [row]), seq := i\<rparr>, ())))"

text \<open>\<^verbatim>\<open>SELECT emotion, COUNT(*) ... GROUP BY emotion\<close>: one row per label present.\<close>

definition sql_select_counts :: "database \<Rightarrow> error + database \<times> (string \<times> nat) list" where
  "sql_select_counts d =
     (case entries_table d of
        None \<Rightarrow> Inl OperationalError
      | Some rows \<Rightarrow>
          Inr (d, map (\<lambda>l. (l, length (filter (\<lambda>e. e_emotion e = l) rows)))
                      (remdups (map e_emotion rows))))"

text \<open>
  \<^verbatim>\<open>ORDER BY ts DESC\<close>: the query names no second key, so SQL leaves the order of rows
  with equal \<^verbatim>\<open>ts\<close> to the engine. SQLite's sorter keeps such rows in the order of the
  scan, which is rowid order; the model does the same with a stable sort.
\<close>

definition order_by_ts_desc :: "entry list \<Rightarrow> entry list" where
  "order_by_ts_desc rows = sort_key (\<lambda>e. - e_ts e) rows"

definition sql_select_all :: "database \<Rightarrow> error + database \<times> entry list" where
  "sql_select_all d =
     (case entries_table d of
        None \<Rightarrow> Inl OperationalError
      | Some rows \<Rightarrow> Inr (d, take 50 (order_by_ts_desc rows)))"

definition sql_select_today :: "int \<Rightarrow> database \<Rightarrow> error + database \<times> entry list" where
  "sql_select_today today d =
     (case entries_table d of
        None \<Rightarrow> Inl OperationalError
      | Some rows \<Rightarrow> Inr (d, filter (\<lambda>e. sql_DATE (e_ts e) = today) rows))"

definition sql_delete_all :: "database \<Rightarrow> error + database \<times> unit" where
  "sql_delete_all d =
     (case entries_table d of
        None \<Rightarrow> Inl OperationalError
      | Some rows \<Rightarrow> Inr (d\<lparr>entries_table := Some []\<rparr>, ()))"

text \<open>The functions of the module.\<close>

definition init_db :: "world \<Rightarrow> (error + unit option) \<times> world" where
  "init_db w = db_exec sql_create_table False w"

definition save_entry ::
  "string \<Rightarrow> string \<Rightarrow> int \<Rightarrow> clock \<Rightarrow> world \<Rightarrow> (error + unit option) \<times> world" where
  "save_entry text emotion stress clk w =
     db_exec (sql_insert text emotion stress (now_utc clk)) False w"

text \<open>\<^verbatim>\<open>dict(...)\<close> of the fetched pairs.\<close>

definition get_counts :: "world \<Rightarrow> (error + (string \<rightharpoonup> nat)) \<times> world" where
  "get_counts w =
     (case db_exec sql_select_counts True w of
        (Inl err, w') \<Rightarrow> (Inl err, w')
      | (Inr fetched, w') \<Rightarrow> (Inr (map_of (case fetched of None \<Rightarrow> [] | Some rows \<Rightarrow> rows)), w'))"

definition get_all :: "world \<Rightarrow> (error + entry list option) \<times> world" where
  "get_all w = db_exec sql_select_all True w"

definition get_today :: "clock \<Rightarrow> world \<Rightarrow> (error + entry list option) \<times> world" where
  "get_today clk w = db_exec (sql_select_today (date_today clk)) True w"

definition clear_all :: "world \<Rightarrow> (error + unit option) \<times> world" where
  "clear_all w = db_exec sql_delete_all False w"

subsection \<open>The report\<close>

text \<open>
  \<^verbatim>\<open>max(set(emotions), key=emotions.count)\<close>. The order in which Python iterates a set
  of strings follows their hashes, which change from one process to the next; it is not the
  order of the list. The model takes it as a parameter \<open>set_iter\<close>: the items of
  \<^verbatim>\<open>set(xs)\<close> in the order of iteration.
\<close>

definition set_iteration :: "(string list \<Rightarrow> string list) \<Rightarrow> bool" where
  "set_iteration set_iter \<longleftrightarrow> (\<forall>xs. distinct (set_iter xs) \<and> set (set_iter xs) = set xs)"

definition dominant :: "(string list \<Rightarrow> string list) \<Rightarrow> string list \<Rightarrow> error + string" where
  "dominant set_iter emotions =
     py_max_key (\<lambda>label. int (count_list emotions label)) (set_iter emotions)"

text \<open>\<^verbatim>\<open>sum(stresses)//len(stresses)\<close>; the caller has checked that there are entries.\<close>

definition average_stress :: "int list \<Rightarrow> int" where
  "average_stress stresses = sum_list stresses div int (length stresses)"

fun report_lines :: "nat \<Rightarrow> entry list \<Rightarrow> report_line list" where
  "report_lines i [] = []"
| "report_lines i (e # es) =
     \<lparr>l_index = i, l_ts = e_ts e, l_emotion = e_emotion e, l_stress = e_stress e\<rparr>
       # report_lines (Suc i) es"

definition build_report ::
  "(string list \<Rightarrow> string list) \<Rightarrow> int \<Rightarrow> entry list \<Rightarrow> error + report" where
  "build_report set_iter today entries =
     (let emotions = map e_emotion entries;
          stresses = map e_stress entries
      in case dominant set_iter emotions of
           Inl err \<Rightarrow> Inl err
         | Inr label \<Rightarrow>
             Inr \<lparr>r_date = today, r_total = length entries, r_avg = average_stress stresses,
                  r_dominant = label, r_lines = report_lines 1 entries\<rparr>)"

text \<open>
  \<open>save_report\<close>: \<open>None\<close> without touching the folder when today has no entries; otherwise
  the folder is made, the report is written under today's date, and the result is \<open>True\<close>.
\<close>

definition save_report ::
  "(string list \<Rightarrow> string list) \<Rightarrow> clock \<Rightarrow> world \<Rightarrow> (error + bool option) \<times> world" where
  "save_report set_iter clk w =
     (case get_today clk w of
        (Inl err, w1) \<Rightarrow> (Inl err, w1)
      | (Inr fetched, w1) \<Rightarrow>
          (let entries = (case fetched of None \<Rightarrow> [] | Some rows \<Rightarrow> rows) in
           if entries = [] then (Inr None, w1)
           else
             (let w2 = w1\<lparr>reports_dir := True\<rparr> in
              case build_report set_iter (date_today clk) entries of
                Inl err \<Rightarrow> (Inl err, w2)
              | Inr rep \<Rightarrow>
                  (Inr (Some True),
                   w2\<lparr>report_files := (report_files w2)(date_today clk \<mapsto> rep)\<rparr>))))"

text \<open>
  The dominant emotion as the specification words it: the label that \<^verbatim>\<open>max\<close> with the
  count as key meets first when it scans the entries in their order.
\<close>

definition spec_dominant :: "string list \<Rightarrow> error + string" where
  "spec_dominant emotions = py_max_key (\<lambda>label. int (count_list emotions label)) emotions"

text \<open>
  The order the specification gives for the recent entries: newest first by timestamp, and
  among equal timestamps the larger id first.
\<close>

definition spec_newest_first :: "entry list \<Rightarrow> bool" where
  "spec_newest_first rows \<longleftrightarrow>
     sorted_wrt (\<lambda>a b. e_ts b < e_ts a \<or> (e_ts b = e_ts a \<and> e_id b < e_id a)) rows"

text \<open>
  The specification's \<^verbatim>\<open>today()\<close>: the entries whose timestamp falls, in local time, on
  the local date of the call.
\<close>

definition spec_today :: "clock \<Rightarrow> entry list \<Rightarrow> entry list" where
  "spec_today clk rows =
     filter (\<lambda>e. local_date (utc_offset clk) (e_ts e) = date_today clk) rows"

subsection \<open>The actions of the application\<close>

text \<open>
  The handlers of the window, as far as they act on the store. Drawing the result and the
  charts is left out; it only reads the store, through \<open>get_counts\<close> and \<open>get_all\<close>, which
  are actions here too. An exception in a handler ends the handler.
\<close>

definition quick :: "config \<Rightarrow> string \<Rightarrow> clock \<Rightarrow> world \<Rightarrow> (error + unit) \<times> world" where
  "quick cfg e clk w =
     (case dict_get (cfg_stress cfg) e of
        Inl err \<Rightarrow> (Inl err, w)
      | Inr stress \<Rightarrow>
          (case save_entry (''[Quick: '' @ e @ '']'') e stress clk w of
             (Inl err, w') \<Rightarrow> (Inl err, w')
           | (Inr r, w') \<Rightarrow> (Inr (), w')))"

text \<open>
  \<open>analyze_q\<close> and \<open>analyze_t\<close> read a text widget, strip the text, and when something is
  left classify it and save the result. They differ in the widgets only.
\<close>

definition analyze_and_save :: "config \<Rightarrow> string \<Rightarrow> clock \<Rightarrow> world \<Rightarrow> (error + unit) \<times> world" where
  "analyze_and_save cfg widget_text clk w =
     (let text = py_strip widget_text in
      if text = [] then (Inr (), w)
      else
        (case analyze_with cfg text of
           Inl err \<Rightarrow> (Inl err, w)
         | Inr (e, s) \<Rightarrow>
             (case save_entry text e s clk w of
                (Inl err, w') \<Rightarrow> (Inl err, w')
              | (Inr r, w') \<Rightarrow> (Inr (), w'))))"

definition analyze_q :: "config \<Rightarrow> string \<Rightarrow> clock \<Rightarrow> world \<Rightarrow> (error + unit) \<times> world" where
  "analyze_q cfg widget_text clk w = analyze_and_save cfg widget_text clk w"

definition analyze_t :: "config \<Rightarrow> string \<Rightarrow> clock \<Rightarrow> world \<Rightarrow> (error + unit) \<times> world" where
  "analyze_t cfg widget_text clk w = analyze_and_save cfg widget_text clk w"

datatype action =
    Quick string
  | Analyze_q string
  | Analyze_t string
  | Save_r
  | Clear bool
  | Get_counts
  | Get_all
  | Get_today

text \<open>One action, under the configuration and the clock of the moment; the world after it.\<close>

fun app_step ::
  "config \<Rightarrow> (string list \<Rightarrow> string list) \<Rightarrow> clock \<Rightarrow> action \<Rightarrow> world \<Rightarrow> world" where
  "app_step cfg set_iter clk (Quick e) w = snd (quick cfg e clk w)"
| "app_step cfg set_iter clk (Analyze_q t) w = snd (analyze_q cfg t clk w)"
| "app_step cfg set_iter clk (Analyze_t t) w = snd (analyze_t cfg t clk w)"
| "app_step cfg set_iter clk Save_r w = snd (save_report set_iter clk w)"
| "app_step cfg set_iter clk (Clear confirmed) w = (if confirmed then snd (clear_all w) else w)"
| "app_step cfg set_iter clk Get_counts w = snd (get_counts w)"
| "app_step cfg set_iter clk Get_all w = snd (get_all w)"
| "app_step cfg set_iter clk Get_today w = snd (get_today clk w)"


text \<open>A new database file, and the world once \<open>init_db\<close> has run on it.\<close>

definition no_database :: world where
  "no_database = \<lparr>db = \<lparr>entries_table = None, seq = 0\<rparr>, calls = [], reports_dir = False,
                   report_files = Map.empty\<rparr>"

definition fresh_world :: world where
  "fresh_world = snd (init_db no_database)"

text \<open>
  An order of iteration that differs from the order of the list: the distinct labels, last
  one first.
\<close>

definition reversed_iteration :: "string list \<Rightarrow> string list" where
  "reversed_iteration xs = rev (remdups xs)"

text \<open>A clock in a zone five and a half hours ahead of UTC, at 20:30 UTC on 4 November 2026.\<close>

definition evening_utc :: clock where
  "evening_utc = \<lparr>now_utc = 1793824200, utc_offset = 19800\<rparr>"

text \<open>
  The world after \<open>n\<close> entries saved one second apart, the first at second 0, and the row
  that the save at second \<open>i\<close> leaves in the table.
\<close>

fun saved_each_second :: "nat \<Rightarrow> world" where
  "saved_each_second 0 = fresh_world"
| "saved_each_second (Suc n) =
     snd (save_entry ''fine'' ''Neutral'' 35 \<lparr>now_utc = int n, utc_offset = 0\<rparr> (saved_each_second n))"

definition nth_saved :: "nat \<Rightarrow> entry" where
  "nth_saved i = \<lparr>e_id = Suc i, e_text = ''fine'', e_emotion = ''Neutral'', e_stress = 35, e_ts = int i\<rparr>"

section \<open>Properties\<close>

subsection \<open>Python's max\<close>

lemma py_max_from_split:
  "\<exists>pre post. best # xs = pre @ py_max_from f best xs # post
     \<and> (\<forall>x\<in>set pre. f x < f (py_max_from f best xs))
     \<and> (\<forall>x\<in>set post. f x \<le> f (py_max_from f best xs))"
proof (induction xs arbitrary: best)
  case Nil
  show ?case by (rule exI [of _ "[]"], rule exI [of _ "[]"]) simp
next
  case (Cons x xs)
  define b where "b = (if f best < f x then x else best)"
  define r where "r = py_max_from f b xs"
  from Cons.IH [of b] obtain pre post where
    d: "b # xs = pre @ r # post" and
    lt: "\<forall>y\<in>set pre. f y < f r" and le: "\<forall>y\<in>set post. f y \<le> f r"
    unfolding r_def by blast
  have r: "py_max_from f best (x # xs) = r" by (simp add: r_def b_def)
  have br: "f b \<le> f r"
  proof (cases pre)
    case Nil
    with d show ?thesis by simp
  next
    case (Cons p ps)
    with d lt show ?thesis by auto
  qed
  show ?case
  proof (cases "f best < f x")
    case True
    then have bx: "b = x" by (simp add: b_def)
    have "best # x # xs = (best # pre) @ r # post" using d bx by simp
    moreover have "\<forall>y\<in>set (best # pre). f y < f r" using lt br True bx by auto
    ultimately show ?thesis unfolding r using le by blast
  next
    case False
    then have bb: "b = best" by (simp add: b_def)
    show ?thesis
    proof (cases pre)
      case Nil
      then have rb: "r = best" and xs: "xs = post" using d bb by auto
      have "best # x # xs = [] @ r # (x # xs)" using rb by simp
      moreover have "\<forall>y\<in>set (x # xs). f y \<le> f r"
        using le xs rb False by auto
      moreover have "\<forall>y\<in>set []. f y < f r" by simp
      ultimately show ?thesis unfolding r by blast
    next
      case (Cons p ps)
      then have p: "p = best" and xs: "xs = ps @ r # post" using d bb by auto
      have "best # x # xs = (best # x # ps) @ r # post" using xs by simp
      moreover have "\<forall>y\<in>set (best # x # ps). f y < f r"
        using lt Cons p False by auto
      ultimately show ?thesis unfolding r using le by blast
    qed
  qed
qed

lemma py_max_from_cong:
  "\<forall>x\<in>set (best # xs). f x = g x \<Longrightarrow> py_max_from f best xs = py_max_from g best xs"
  by (induction xs arbitrary: best) auto

lemma py_max_from_mem: "py_max_from f best xs \<in> set (best # xs)"
  by (induction xs arbitrary: best) auto

lemma py_max_from_ge: "x \<in> set (best # xs) \<Longrightarrow> f x \<le> f (py_max_from f best xs)"
  using py_max_from_split [of best xs f]
  by (metis Un_iff insert_iff less_imp_le list.set(2) order_refl set_append)

lemma find_first:
  "xs = pre @ r # post \<Longrightarrow> P r \<Longrightarrow> \<forall>x\<in>set pre. \<not> P x \<Longrightarrow> find P xs = Some r"
  by (induction pre arbitrary: xs) auto

lemma py_max_key_first:
  assumes "py_max_key f xs = Inr r"
  shows "find (\<lambda>x. \<forall>y\<in>set xs. f y \<le> f x) xs = Some r"
proof (cases xs)
  case Nil
  with assms show ?thesis by simp
next
  case (Cons b bs)
  with assms have r: "r = py_max_from f b bs" by simp
  obtain pre post where d: "b # bs = pre @ r # post"
    and lt: "\<forall>x\<in>set pre. f x < f r" and le: "\<forall>x\<in>set post. f x \<le> f r"
    using py_max_from_split [of b bs f] r by blast
  have rmem: "r \<in> set xs" using d Cons by simp
  have top: "\<forall>y\<in>set xs. f y \<le> f r" using r Cons py_max_from_ge [of _ b bs f] by simp
  have "\<forall>x\<in>set pre. \<not> (\<forall>y\<in>set xs. f y \<le> f x)"
    using lt rmem by (meson not_le)
  with d top Cons show ?thesis by (intro find_first [of xs pre r post]) auto
qed

subsection \<open>The classifier under the reference configuration\<close>

lemma contains_iff_sublist: "contains w s \<longleftrightarrow> sublist w s"
  by (induction s) (auto simp: sublist_Cons_right)

lemma keyword_count_length:
  "keyword_count ws l = int (length (filter (\<lambda>w. contains w l) ws))"
  unfolding keyword_count_def by (induction ws) auto

lemma keyword_count_card:
  "keyword_count ws l = int (card {i. i < length ws \<and> sublist (ws ! i) l})"
  by (simp add: keyword_count_length length_filter_conv_card contains_iff_sublist)

lemma keyword_count_bounds: "0 \<le> keyword_count ws l" "keyword_count ws l \<le> int (length ws)"
  by (simp_all add: keyword_count_length)

lemma match_count_nonneg: "0 \<le> match_count e text"
  by (simp add: match_count_def keyword_count_bounds split: option.split)

lemma distinct_EMOTIONS: "distinct EMOTIONS"
  by (simp add: EMOTIONS_def)

lemma WORDS_defined: "e \<in> set EMOTIONS \<Longrightarrow> \<exists>ws. WORDS e = Some ws"
  by (auto simp: EMOTIONS_def WORDS_def)

lemma STRESS_defined: "e \<in> set EMOTIONS \<Longrightarrow> \<exists>s. STRESS e = Some s"
  by (auto simp: EMOTIONS_def STRESS_def)

lemma Neutral_in_EMOTIONS: "''Neutral'' \<in> set EMOTIONS"
  by (simp add: EMOTIONS_def)

lemma STRESS_Neutral: "STRESS ''Neutral'' = Some 35"
  by (simp add: STRESS_def)

lemma build_scores_reference:
  "build_scores WORDS (py_lower text) EMOTIONS [] = Inr (ref_scores text)"
  by (simp add: ref_scores_def EMOTIONS_def WORDS_def dict_get_def match_count_def)

lemma ref_scores_keys: "map fst (ref_scores text) = EMOTIONS"
  by (simp add: ref_scores_def comp_def)

lemma ref_scores_values: "map snd (ref_scores text) = map (\<lambda>e. match_count e text) EMOTIONS"
  by (simp add: ref_scores_def comp_def)

lemma map_of_tabulate: "k \<in> set ks \<Longrightarrow> map_of (map (\<lambda>k. (k, f k)) ks) k = Some (f k)"
  by (induction ks) auto

lemma ref_scores_lookup:
  "e \<in> set EMOTIONS \<Longrightarrow> map_of (ref_scores text) e = Some (match_count e text)"
  unfolding ref_scores_def by (rule map_of_tabulate)

lemma ref_scores_get: "e \<in> set EMOTIONS \<Longrightarrow> scores_get (ref_scores text) e = match_count e text"
  by (simp add: scores_get_def ref_scores_lookup)


lemma EMOTIONS_Cons: "EMOTIONS = ''Energetic'' # tl EMOTIONS"
  by (simp add: EMOTIONS_def)

lemma highest_reference:
  "\<exists>h. py_max_key id (map snd (ref_scores text)) = Inr h
     \<and> (0 < h \<longleftrightarrow> (\<exists>e\<in>set EMOTIONS. 0 < match_count e text))"
proof -
  define vs where "vs = map (\<lambda>e. match_count e text) EMOTIONS"
  have ne: "vs \<noteq> []" by (simp add: vs_def EMOTIONS_def)
  then obtain v rest where vs: "vs = v # rest" by (cases vs) auto
  define h where "h = py_max_from id v rest"
  have k: "py_max_key id vs = Inr h" by (simp add: vs h_def)
  have mem: "h \<in> set vs" using py_max_from_mem [of id v rest] by (simp add: vs h_def)
  have ge: "\<And>x. x \<in> set vs \<Longrightarrow> x \<le> h"
    using py_max_from_ge [of _ v rest id] by (simp add: vs h_def)
  have "0 < h \<longleftrightarrow> (\<exists>x\<in>set vs. 0 < x)"
    using mem ge by force
  also have "\<dots> \<longleftrightarrow> (\<exists>e\<in>set EMOTIONS. 0 < match_count e text)"
    by (auto simp: vs_def)
  finally show ?thesis using k by (auto simp: ref_scores_values vs_def)
qed

lemma best_reference:
  "py_max_key (scores_get (ref_scores text)) (map fst (ref_scores text))
     = py_max_key (\<lambda>e. match_count e text) EMOTIONS"
proof -
  obtain b bs where e: "EMOTIONS = b # bs" by (cases EMOTIONS) (auto simp: EMOTIONS_def)
  have "py_max_from (scores_get (ref_scores text)) b bs = py_max_from (\<lambda>e. match_count e text) b bs"
    by (rule py_max_from_cong) (simp add: ref_scores_get e [symmetric])
  then show ?thesis by (simp add: ref_scores_keys e)
qed

lemma analyze_positive:
  assumes "\<exists>e\<in>set EMOTIONS. 0 < match_count e text"
  shows "\<exists>best s. py_max_key (\<lambda>e. match_count e text) EMOTIONS = Inr best \<and> best \<in> set EMOTIONS
           \<and> STRESS best = Some s \<and> analyze text = Inr (best, s)"
proof -
  obtain h where h: "py_max_key id (map snd (ref_scores text)) = Inr h" and pos: "0 < h"
    using highest_reference [of "text"] assms by blast
  obtain b bs where e: "EMOTIONS = b # bs" by (cases EMOTIONS) (auto simp: EMOTIONS_def)
  define best where "best = py_max_from (\<lambda>e. match_count e text) b bs"
  have k: "py_max_key (\<lambda>e. match_count e text) EMOTIONS = Inr best" by (simp add: e best_def)
  have mem: "best \<in> set EMOTIONS" using py_max_from_mem [of "\<lambda>e. match_count e text" b bs]
    by (simp add: e best_def)
  then obtain s where s: "STRESS best = Some s" using STRESS_defined by blast
  have "analyze text = Inr (best, s)"
    by (simp add: analyze_def analyze_with_def reference_def build_scores_reference h pos
        best_reference k dict_get_def s)
  with k mem s show ?thesis by blast
qed

lemma analyze_zero:
  assumes "\<not> (\<exists>e\<in>set EMOTIONS. 0 < match_count e text)"
  shows "analyze text = Inr (''Neutral'', 35)"
proof -
  obtain h where h: "py_max_key id (map snd (ref_scores text)) = Inr h" and pos: "\<not> 0 < h"
    using highest_reference [of "text"] assms by blast
  show ?thesis
    by (simp add: analyze_def analyze_with_def reference_def build_scores_reference h pos
        dict_get_def STRESS_Neutral)
qed

subsection \<open>Classification results\<close>

text \<open>
  Claim C1. When some emotion has a positive count, \<open>analyze\<close> returns the first emotion of
  \<open>EMOTIONS\<close>, in the order of the list, whose count no other emotion exceeds, with the stress
  score \<open>STRESS\<close> holds for it. This covers every text where several emotions share the
  highest count.
\<close>

theorem analyze_tie_first_in_enumeration:
  assumes "find (\<lambda>e. \<forall>e'\<in>set EMOTIONS. match_count e' text \<le> match_count e text) EMOTIONS = Some e"
    and "0 < match_count e text"
  shows "\<exists>stress. STRESS e = Some stress \<and> analyze text = Inr (e, stress)"
proof -
  have mem: "e \<in> set EMOTIONS" using assms(1) by (auto simp: find_Some_iff)
  with assms(2) have "\<exists>e\<in>set EMOTIONS. 0 < match_count e text" by blast
  then obtain best s where k: "py_max_key (\<lambda>e. match_count e text) EMOTIONS = Inr best"
    and s: "STRESS best = Some s" and a: "analyze text = Inr (best, s)"
    using analyze_positive by blast
  from py_max_key_first [OF k] assms(1) have "best = e" by simp
  with s a show ?thesis by simp
qed

theorem analyze_tie_first_in_enumeration_witness:
  "find (\<lambda>e. \<forall>e'\<in>set EMOTIONS. match_count e' ''So SAD and tired'' \<le> match_count e ''So SAD and tired'')
      EMOTIONS = Some ''Tired''
   \<and> match_count ''Tired'' ''So SAD and tired'' = 1
   \<and> match_count ''Sad'' ''So SAD and tired'' = 1
   \<and> analyze ''So SAD and tired'' = Inr (''Tired'', 55)"
proof -
  have f: "find (\<lambda>e. \<forall>e'\<in>set EMOTIONS. match_count e' ''So SAD and tired'' \<le> match_count e ''So SAD and tired'')
      EMOTIONS = Some ''Tired''"
    by code_simp
  have t: "match_count ''Tired'' ''So SAD and tired'' = 1" by code_simp
  have s: "match_count ''Sad'' ''So SAD and tired'' = 1" by code_simp
  have p: "0 < match_count ''Tired'' ''So SAD and tired''" using t by simp
  have "STRESS ''Tired'' = Some 55" by (simp add: STRESS_def)
  with analyze_tie_first_in_enumeration [OF f p] have "analyze ''So SAD and tired'' = Inr (''Tired'', 55)"
    by simp
  with f t s show ?thesis by simp
qed

text \<open>
  Claim C2. \<open>analyze\<close> returns a pair for every text; when no keyword of \<open>WORDS\<close> occurs
  in the lower-cased text, and so for the empty text, the pair is Neutral with the score 35.
\<close>

theorem analyze_total_default_neutral:
  "(\<exists>emotion stress. analyze text = Inr (emotion, stress))
   \<and> ((\<forall>e ws. WORDS e = Some ws \<longrightarrow> (\<forall>w\<in>set ws. \<not> contains w (py_lower text)))
        \<longrightarrow> analyze text = Inr (''Neutral'', 35))
   \<and> analyze [] = Inr (''Neutral'', 35)"
proof -
  have total: "\<And>t. \<exists>emotion stress. analyze t = Inr (emotion, stress)"
  proof -
    fix t
    show "\<exists>emotion stress. analyze t = Inr (emotion, stress)"
    proof (cases "\<exists>e\<in>set EMOTIONS. 0 < match_count e t")
      case True
      from analyze_positive [OF True] show ?thesis by blast
    next
      case False
      from analyze_zero [OF False] show ?thesis by blast
    qed
  qed
  have none: "\<And>t. \<forall>e ws. WORDS e = Some ws \<longrightarrow> (\<forall>w\<in>set ws. \<not> contains w (py_lower t))
      \<Longrightarrow> analyze t = Inr (''Neutral'', 35)"
  proof -
    fix t
    assume h: "\<forall>e ws. WORDS e = Some ws \<longrightarrow> (\<forall>w\<in>set ws. \<not> contains w (py_lower t))"
    have "\<And>e. match_count e t = 0"
    proof -
      fix e
      show "match_count e t = 0"
      proof (cases "WORDS e")
        case None
        then show ?thesis by (simp add: match_count_def)
      next
        case (Some ws)
        with h have "filter (\<lambda>w. contains w (py_lower t)) ws = []" by (simp add: filter_empty_conv)
        with Some show ?thesis by (simp add: match_count_def keyword_count_length)
      qed
    qed
    then have "\<not> (\<exists>e\<in>set EMOTIONS. 0 < match_count e t)" by simp
    then show "analyze t = Inr (''Neutral'', 35)" by (rule analyze_zero)
  qed
  have "\<forall>e ws. WORDS e = Some ws \<longrightarrow> (\<forall>w\<in>set ws. \<not> contains w (py_lower []))"
    by (auto simp: WORDS_def py_lower_def split: if_splits)
  then have "analyze [] = Inr (''Neutral'', 35)" by (rule none)
  with total none show ?thesis by blast
qed

theorem analyze_total_default_neutral_witness:
  "py_lower ''xyz123'' = ''xyz123'' \<and> analyze ''xyz123'' = Inr (''Neutral'', 35)"
proof -
  have l: "py_lower ''xyz123'' = ''xyz123''" by code_simp
  have h: "\<forall>e ws. WORDS e = Some ws \<longrightarrow> (\<forall>w\<in>set ws. \<not> contains w (py_lower ''xyz123''))"
    unfolding l by (auto simp: WORDS_def split: if_splits)
  with l analyze_total_default_neutral [of "''xyz123''"] show ?thesis by blast
qed

text \<open>
  Claim C3. Under the reference configuration the dict \<^verbatim>\<open>scores\<close> has one entry per
  emotion; the entry of an emotion is the number of positions of its keyword list whose
  keyword is a substring of the lower-cased text, so a keyword counts once however often it
  occurs and the count never exceeds the length of the list. The emotion \<open>analyze\<close> returns
  has a count that no emotion exceeds.
\<close>

theorem scores_count_matching_keyword_entries:
  "\<exists>scores. build_scores WORDS (py_lower text) EMOTIONS [] = Inr scores
     \<and> map fst scores = EMOTIONS
     \<and> (\<forall>e\<in>set EMOTIONS. \<exists>ws. WORDS e = Some ws
           \<and> map_of scores e = Some (int (card {i. i < length ws \<and> sublist (ws ! i) (py_lower text)}))
           \<and> scores_get scores e \<le> int (length ws))
     \<and> (\<exists>best stress. analyze text = Inr (best, stress) \<and> best \<in> set EMOTIONS
           \<and> (\<forall>e\<in>set EMOTIONS. scores_get scores e \<le> scores_get scores best))"
proof -
  have counts: "\<forall>e\<in>set EMOTIONS. \<exists>ws. WORDS e = Some ws
           \<and> map_of (ref_scores text) e = Some (int (card {i. i < length ws \<and> sublist (ws ! i) (py_lower text)}))
           \<and> scores_get (ref_scores text) e \<le> int (length ws)"
  proof
    fix e
    assume mem: "e \<in> set EMOTIONS"
    then obtain ws where ws: "WORDS e = Some ws" using WORDS_defined by blast
    then have mc: "match_count e text = keyword_count ws (py_lower text)" by (simp add: match_count_def)
    have "map_of (ref_scores text) e = Some (int (card {i. i < length ws \<and> sublist (ws ! i) (py_lower text)}))"
      using ref_scores_lookup [OF mem] mc by (simp add: keyword_count_card)
    moreover have "scores_get (ref_scores text) e \<le> int (length ws)"
      using ref_scores_get [OF mem] mc keyword_count_bounds(2) [of ws "py_lower text"] by simp
    ultimately show "\<exists>ws. WORDS e = Some ws
           \<and> map_of (ref_scores text) e = Some (int (card {i. i < length ws \<and> sublist (ws ! i) (py_lower text)}))
           \<and> scores_get (ref_scores text) e \<le> int (length ws)"
      using ws by blast
  qed
  have best: "\<exists>best stress. analyze text = Inr (best, stress) \<and> best \<in> set EMOTIONS
           \<and> (\<forall>e\<in>set EMOTIONS. scores_get (ref_scores text) e \<le> scores_get (ref_scores text) best)"
  proof (cases "\<exists>e\<in>set EMOTIONS. 0 < match_count e text")
    case True
    then obtain b s where k: "py_max_key (\<lambda>e. match_count e text) EMOTIONS = Inr b"
      and mem: "b \<in> set EMOTIONS" and a: "analyze text = Inr (b, s)"
      using analyze_positive by blast
    obtain x xs where e: "EMOTIONS = x # xs" by (cases EMOTIONS) (auto simp: EMOTIONS_def)
    from k have b: "b = py_max_from (\<lambda>e. match_count e text) x xs" by (simp add: e)
    have "\<forall>e\<in>set EMOTIONS. match_count e text \<le> match_count b text"
      unfolding b e using py_max_from_ge [of _ x xs "\<lambda>e. match_count e text"] by blast
    then have "\<forall>e\<in>set EMOTIONS. scores_get (ref_scores text) e \<le> scores_get (ref_scores text) b"
      using mem by (simp add: ref_scores_get)
    with a mem show ?thesis by blast
  next
    case False
    then have z: "\<forall>e\<in>set EMOTIONS. match_count e text = 0"
      using match_count_nonneg by (metis less_le)
    have a: "analyze text = Inr (''Neutral'', 35)" using False by (rule analyze_zero)
    have "\<forall>e\<in>set EMOTIONS. scores_get (ref_scores text) e \<le> scores_get (ref_scores text) ''Neutral''"
      using z Neutral_in_EMOTIONS by (simp add: ref_scores_get)
    with a Neutral_in_EMOTIONS show ?thesis by blast
  qed
  show ?thesis
    apply (rule exI [of _ "ref_scores text"])
    apply (intro conjI)
       apply (rule build_scores_reference)
      apply (rule ref_scores_keys)
     apply (rule counts)
    apply (rule best)
    done
qed

theorem scores_count_matching_keyword_entries_witness:
  "build_scores WORDS (py_lower ''Sad, sad, SAD'') EMOTIONS [] =
     Inr [(''Energetic'', 0), (''Motivated'', 0), (''Neutral'', 0), (''Tired'', 0), (''Sad'', 1),
          (''Angry'', 0), (''Stressed'', 0), (''Overwhelmed'', 0)]
   \<and> analyze ''Sad, sad, SAD'' = Inr (''Sad'', 65)
   \<and> scores_get [(''Energetic'', 0), (''Motivated'', 0), (''Neutral'', 0), (''Tired'', 0),
                   (''Sad'', 1), (''Angry'', 0), (''Stressed'', 0), (''Overwhelmed'', 0)] ''Energetic''
       \<le> scores_get [(''Energetic'', 0), (''Motivated'', 0), (''Neutral'', 0), (''Tired'', 0),
                   (''Sad'', 1), (''Angry'', 0), (''Stressed'', 0), (''Overwhelmed'', 0)] ''Sad''"
proof -
  define sc :: "(string \<times> int) list" where
    "sc = [(''Energetic'', 0), (''Motivated'', 0), (''Neutral'', 0), (''Tired'', 0), (''Sad'', 1),
          (''Angry'', 0), (''Stressed'', 0), (''Overwhelmed'', 0)]"
  have b: "build_scores WORDS (py_lower ''Sad, sad, SAD'') EMOTIONS [] = Inr sc"
    unfolding sc_def by code_simp
  have a: "analyze ''Sad, sad, SAD'' = Inr (''Sad'', 65)" by code_simp
  from scores_count_matching_keyword_entries [of "''Sad, sad, SAD''"]
  obtain scores best stress where
    "build_scores WORDS (py_lower ''Sad, sad, SAD'') EMOTIONS [] = Inr scores"
    "analyze ''Sad, sad, SAD'' = Inr (best, stress)"
    "\<forall>e\<in>set EMOTIONS. scores_get scores e \<le> scores_get scores best"
    by blast
  with a b have "\<forall>e\<in>set EMOTIONS. scores_get sc e \<le> scores_get sc ''Sad''" by simp
  moreover have "''Energetic'' \<in> set EMOTIONS" by (simp add: EMOTIONS_def)
  ultimately have "scores_get sc ''Energetic'' \<le> scores_get sc ''Sad''" by blast
  with a b show ?thesis unfolding sc_def by blast
qed

subsection \<open>Store operations\<close>

lemma db_exec_ok:
  "query (db w) = Inr (d, rows) \<Longrightarrow>
   db_exec query fetch w =
     (Inr (if fetch then Some rows else None),
      w\<lparr>db := d, calls := calls w @ [Connect, Execute] @ (if fetch then [Fetchall] else []) @ [Commit, Close]\<rparr>)"
  by (simp add: db_exec_def Let_def)

lemma db_exec_raises:
  "query (db w) = Inl err \<Longrightarrow>
   db_exec query fetch w = (Inl err, w\<lparr>calls := calls w @ [Connect, Execute]\<rparr>)"
  by (simp add: db_exec_def Let_def)

lemma get_all_ok:
  "entries_table (db w) = Some rows \<Longrightarrow>
   get_all w = (Inr (Some (take 50 (order_by_ts_desc rows))),
                w\<lparr>calls := calls w @ [Connect, Execute, Fetchall, Commit, Close]\<rparr>)"
  by (simp add: get_all_def db_exec_def sql_select_all_def Let_def)

lemma get_today_ok:
  "entries_table (db w) = Some rows \<Longrightarrow>
   get_today clk w = (Inr (Some (filter (\<lambda>e. sql_DATE (e_ts e) = date_today clk) rows)),
                w\<lparr>calls := calls w @ [Connect, Execute, Fetchall, Commit, Close]\<rparr>)"
  by (simp add: get_today_def db_exec_def sql_select_today_def Let_def)

lemma save_entry_ok:
  "entries_table (db w) = Some rows \<Longrightarrow>
   save_entry text emotion stress clk w =
     (Inr None,
      w\<lparr>db := (db w)\<lparr>entries_table := Some (rows @ [\<lparr>e_id = Suc (fold max (map e_id rows) (seq (db w))),
              e_text = text, e_emotion = emotion, e_stress = stress, e_ts = now_utc clk\<rparr>]),
            seq := Suc (fold max (map e_id rows) (seq (db w)))\<rparr>,
        calls := calls w @ [Connect, Execute, Commit, Close]\<rparr>)"
  by (simp add: save_entry_def db_exec_def sql_insert_def Let_def)

lemma clear_all_ok:
  "entries_table (db w) = Some rows \<Longrightarrow>
   clear_all w = (Inr None, w\<lparr>db := (db w)\<lparr>entries_table := Some []\<rparr>,
                           calls := calls w @ [Connect, Execute, Commit, Close]\<rparr>)"
  by (simp add: clear_all_def db_exec_def sql_delete_all_def Let_def)

lemma get_counts_ok:
  "entries_table (db w) = Some rows \<Longrightarrow>
   snd (get_counts w) = w\<lparr>calls := calls w @ [Connect, Execute, Fetchall, Commit, Close]\<rparr>
   \<and> (\<exists>m. fst (get_counts w) = Inr m)"
  by (simp add: get_counts_def db_exec_def sql_select_counts_def Let_def)

lemma sorted_order_by_ts_desc:
  "sorted_wrt (\<lambda>a b. e_ts b \<le> e_ts a) (order_by_ts_desc rows)"
proof -
  have "sorted (map (\<lambda>e. - e_ts e) (order_by_ts_desc rows))"
    unfolding order_by_ts_desc_def by (rule sorted_sort_key)
  then show ?thesis by (simp add: sorted_map)
qed

lemma set_order_by_ts_desc: "set (order_by_ts_desc rows) = set rows"
  by (simp add: order_by_ts_desc_def)

lemma length_order_by_ts_desc: "length (order_by_ts_desc rows) = length rows"
  by (simp add: order_by_ts_desc_def)

lemma order_by_ts_desc_newest_last:
  assumes "\<forall>old\<in>set rows. e_ts old < e_ts new"
  shows "order_by_ts_desc (rows @ [new]) = new # order_by_ts_desc rows"
proof -
  have "sort_key (\<lambda>e. - e_ts e) (rows @ [new]) = new # sort_key (\<lambda>e. - e_ts e) rows"
    using assms
  proof (induction rows)
    case Nil
    show ?case by simp
  next
    case (Cons r rows)
    then have ih: "sort_key (\<lambda>e. - e_ts e) (rows @ [new]) = new # sort_key (\<lambda>e. - e_ts e) rows"
      by simp
    have lt: "e_ts r < e_ts new" using Cons.prems by simp
    show ?case using lt by (simp add: ih)
  qed
  then show ?thesis by (simp add: order_by_ts_desc_def)
qed

lemma take_sorted_top:
  assumes "sorted_wrt R xs" "x \<in> set (take n xs)" "y \<in> set (drop n xs)"
  shows "R x y"
proof -
  have "sorted_wrt R (take n xs @ drop n xs)" using assms(1) by simp
  then show ?thesis using assms(2,3) unfolding sorted_wrt_append by blast
qed

lemma fresh_world_table: "entries_table (db fresh_world) = Some []"
  by (simp add: fresh_world_def no_database_def init_db_def db_exec_def sql_create_table_def Let_def)

lemma fresh_world_seq: "seq (db fresh_world) = 0"
  by (simp add: fresh_world_def no_database_def init_db_def db_exec_def sql_create_table_def Let_def)

lemma fold_max_bound: "\<forall>x\<in>set xs. x \<le> m \<Longrightarrow> fold max xs (m::nat) = m"
  by (induction xs) (auto simp: max_absorb2)

lemma saved_each_second_table:
  "entries_table (db (saved_each_second n)) = Some (map nth_saved [0..<n])
   \<and> seq (db (saved_each_second n)) = n"
proof (induction n)
  case 0
  show ?case by (simp add: fresh_world_table fresh_world_seq)
next
  case (Suc n)
  then have t: "entries_table (db (saved_each_second n)) = Some (map nth_saved [0..<n])"
    and q: "seq (db (saved_each_second n)) = n"
    by simp_all
  have "\<forall>x\<in>set (map e_id (map nth_saved [0..<n])). x \<le> n" by (auto simp: nth_saved_def)
  then have "fold max (map e_id (map nth_saved [0..<n])) n = n" by (rule fold_max_bound)
  then have m: "fold max (map (e_id \<circ> nth_saved) [0..<n]) n = n" by simp
  show ?case by (simp add: save_entry_ok [OF t] q m) (simp add: nth_saved_def)
qed

lemma order_saved_each_second:
  "order_by_ts_desc (map nth_saved [0..<n]) = rev (map nth_saved [0..<n])"
proof (induction n)
  case 0
  show ?case by (simp add: order_by_ts_desc_def)
next
  case (Suc n)
  have "\<forall>old\<in>set (map nth_saved [0..<n]). e_ts old < e_ts (nth_saved n)"
    by (auto simp: nth_saved_def)
  from order_by_ts_desc_newest_last [OF this] Suc show ?case by simp
qed

text \<open>
  Claim C4, as the code has it. \<open>get_all\<close> takes no limit: the query returns at most 50
  rows, and all the stored rows when there are 50 or fewer. The rows returned are stored rows,
  none more often than it is stored, in order of timestamp, newest first, and no row left out
  is newer than a row returned. The query has no second key, so rows of one timestamp are not
  ordered by id. An entry saved with a timestamp later than every stored one comes first,
  ahead of the 49 rows that came first before.
\<close>

theorem get_all_newest_first:
  assumes "entries_table (db w) = Some rows"
  shows "\<exists>res. fst (get_all w) = Inr (Some res)
      \<and> length res = min 50 (length rows)
      \<and> set res \<subseteq> set rows
      \<and> mset res \<subseteq># mset rows
      \<and> (length rows \<le> 50 \<longrightarrow> mset res = mset rows)
      \<and> sorted_wrt (\<lambda>a b. e_ts b \<le> e_ts a) res
      \<and> (\<forall>x\<in>set res. \<forall>y\<in>set rows - set res. e_ts y \<le> e_ts x)
      \<and> (\<forall>x\<in>set res. \<forall>y\<in>#mset rows - mset res. e_ts y \<le> e_ts x)
      \<and> ((\<forall>old\<in>set rows. e_ts old < now_utc clk) \<longrightarrow>
           fst (get_all (snd (save_entry text emotion stress clk w))) =
              Inr (Some (\<lparr>e_id = Suc (fold max (map e_id rows) (seq (db w))), e_text = text,
                           e_emotion = emotion, e_stress = stress, e_ts = now_utc clk\<rparr>
                         # take 49 res)))"
proof -
  define srt where "srt = order_by_ts_desc rows"
  define res where "res = take 50 srt"
  have ms: "mset srt = mset rows" by (simp add: srt_def order_by_ts_desc_def)
  have split: "mset rows = mset res + mset (drop 50 srt)"
    unfolding res_def ms [symmetric] by (metis append_take_drop_id mset_append)
  have g: "fst (get_all w) = Inr (Some res)" using assms by (simp add: get_all_ok res_def srt_def)
  have len: "length res = min 50 (length rows)"
    by (simp add: res_def srt_def length_order_by_ts_desc min.commute)
  have sub: "set res \<subseteq> set rows"
    unfolding res_def srt_def using set_take_subset [of 50 "order_by_ts_desc rows"]
    by (simp add: set_order_by_ts_desc)
  have msub: "mset res \<subseteq># mset rows" unfolding split by simp
  have all: "length rows \<le> 50 \<longrightarrow> mset res = mset rows"
    by (simp add: res_def ms [symmetric] srt_def length_order_by_ts_desc)
  have srt: "sorted_wrt (\<lambda>a b. e_ts b \<le> e_ts a) res"
    unfolding res_def srt_def by (rule sorted_wrt_take) (rule sorted_order_by_ts_desc)
  have top: "\<forall>x\<in>set res. \<forall>y\<in>set rows - set res. e_ts y \<le> e_ts x"
  proof (intro ballI)
    fix x y
    assume x: "x \<in> set res" and y: "y \<in> set rows - set res"
    have "set rows = set (take 50 (order_by_ts_desc rows)) \<union> set (drop 50 (order_by_ts_desc rows))"
      by (metis append_take_drop_id set_append set_order_by_ts_desc)
    with y have "y \<in> set (drop 50 (order_by_ts_desc rows))" by (auto simp: res_def srt_def)
    with x show "e_ts y \<le> e_ts x"
      using take_sorted_top [OF sorted_order_by_ts_desc, of x 50 rows y] by (simp add: res_def srt_def)
  qed
  have mtop: "\<forall>x\<in>set res. \<forall>y\<in>#mset rows - mset res. e_ts y \<le> e_ts x"
  proof (intro ballI)
    fix x y
    assume x: "x \<in> set res" and y: "y \<in># mset rows - mset res"
    from y have "y \<in> set (drop 50 srt)" unfolding split by simp
    with x show "e_ts y \<le> e_ts x"
      using take_sorted_top [OF sorted_order_by_ts_desc, of x 50 rows y] by (simp add: res_def srt_def)
  qed
  have new: "(\<forall>old\<in>set rows. e_ts old < now_utc clk) \<longrightarrow>
           fst (get_all (snd (save_entry text emotion stress clk w))) =
              Inr (Some (\<lparr>e_id = Suc (fold max (map e_id rows) (seq (db w))), e_text = text,
                           e_emotion = emotion, e_stress = stress, e_ts = now_utc clk\<rparr>
                         # take 49 res))"
  proof
    assume old: "\<forall>old\<in>set rows. e_ts old < now_utc clk"
    define row where "row = \<lparr>e_id = Suc (fold max (map e_id rows) (seq (db w))), e_text = text,
                           e_emotion = emotion, e_stress = stress, e_ts = now_utc clk\<rparr>"
    define w1 where "w1 = snd (save_entry text emotion stress clk w)"
    have t1: "entries_table (db w1) = Some (rows @ [row])"
      using assms by (simp add: w1_def save_entry_ok row_def)
    have "\<forall>old\<in>set rows. e_ts old < e_ts row" using old by (simp add: row_def)
    then have o: "order_by_ts_desc (rows @ [row]) = row # order_by_ts_desc rows"
      by (rule order_by_ts_desc_newest_last)
    have "fst (get_all w1) = Inr (Some (row # take 49 (order_by_ts_desc rows)))"
      using t1 by (simp add: get_all_ok o take_Cons')
    moreover have "take 49 res = take 49 (order_by_ts_desc rows)"
      by (simp add: res_def srt_def min_def)
    ultimately show "fst (get_all (snd (save_entry text emotion stress clk w))) =
              Inr (Some (\<lparr>e_id = Suc (fold max (map e_id rows) (seq (db w))), e_text = text,
                           e_emotion = emotion, e_stress = stress, e_ts = now_utc clk\<rparr>
                         # take 49 res))"
      unfolding w1_def row_def by simp
  qed
  from g len sub msub all srt top mtop new show ?thesis by blast
qed

theorem get_all_newest_first_witness:
  "entries_table (db (saved_each_second 51)) = Some (map nth_saved [0..<51])
   \<and> fst (get_all (saved_each_second 51)) = Inr (Some (rev (map nth_saved [1..<51])))
   \<and> fst (get_all (snd (save_entry ''so tired'' ''Tired'' 55 \<lparr>now_utc = 100, utc_offset = 0\<rparr>
                            (saved_each_second 51))))
       = Inr (Some (\<lparr>e_id = 52, e_text = ''so tired'', e_emotion = ''Tired'', e_stress = 55,
                    e_ts = 100\<rparr> # rev (map nth_saved [2..<51])))
   \<and> entries_table (db (saved_each_second 2)) = Some [nth_saved 0, nth_saved 1]
   \<and> fst (get_all (saved_each_second 2)) = Inr (Some [nth_saved 1, nth_saved 0])"
proof -
  define rows where "rows = map nth_saved [0..<51]"
  have t: "entries_table (db (saved_each_second 51)) = Some rows"
    and q: "seq (db (saved_each_second 51)) = 51"
    using saved_each_second_table [of 51] by (simp_all add: rows_def)
  have old: "\<forall>old\<in>set rows. e_ts old < now_utc \<lparr>now_utc = 100, utc_offset = 0\<rparr>"
    by (auto simp: rows_def nth_saved_def)
  have ids: "\<forall>x\<in>set (map e_id rows). x \<le> 51" by (auto simp: rows_def nth_saved_def)
  have m: "fold max (map e_id rows) 51 = 51" using ids by (rule fold_max_bound)
  have r: "fst (get_all (saved_each_second 51)) = Inr (Some (rev (map nth_saved [1..<51])))"
    by (simp add: get_all_ok [OF t] rows_def order_saved_each_second take_rev drop_map)
  from get_all_newest_first [OF t, of "\<lparr>now_utc = 100, utc_offset = 0\<rparr>" "''so tired''" "''Tired''" 55]
  obtain res where g: "fst (get_all (saved_each_second 51)) = Inr (Some res)"
    and l: "length res = min 50 (length rows)"
    and n: "fst (get_all (snd (save_entry ''so tired'' ''Tired'' 55 \<lparr>now_utc = 100, utc_offset = 0\<rparr>
                            (saved_each_second 51))))
       = Inr (Some (\<lparr>e_id = Suc (fold max (map e_id rows) (seq (db (saved_each_second 51)))),
                    e_text = ''so tired'', e_emotion = ''Tired'', e_stress = 55,
                    e_ts = now_utc \<lparr>now_utc = 100, utc_offset = 0\<rparr>\<rparr> # take 49 res))"
    using old by blast
  from g r have res: "res = rev (map nth_saved [1..<51])" by simp
  have l50: "length res = 50" using l by (simp add: rows_def)
  have t49: "take 49 res = rev (map nth_saved [2..<51])"
    unfolding res by (simp add: take_rev drop_map numeral_2_eq_2 del: upt_rec_numeral)
  have n': "fst (get_all (snd (save_entry ''so tired'' ''Tired'' 55 \<lparr>now_utc = 100, utc_offset = 0\<rparr>
                            (saved_each_second 51))))
       = Inr (Some (\<lparr>e_id = 52, e_text = ''so tired'', e_emotion = ''Tired'', e_stress = 55,
                    e_ts = 100\<rparr> # rev (map nth_saved [2..<51])))"
    using n by (simp add: q m t49)
  have u: "[0..<2] = [0, Suc 0]" by (simp add: upt_rec)
  have t2: "entries_table (db (saved_each_second 2)) = Some [nth_saved 0, nth_saved 1]"
    using saved_each_second_table [of 2] by (simp add: u)
  from get_all_newest_first [OF t2, of "\<lparr>now_utc = 100, utc_offset = 0\<rparr>" "[]" "[]" 0]
  obtain res2 where g2: "fst (get_all (saved_each_second 2)) = Inr (Some res2)"
    and a2: "mset res2 = mset [nth_saved 0, nth_saved 1]"
    and s2: "sorted_wrt (\<lambda>a b. e_ts b \<le> e_ts a) res2"
    by auto
  have "fst (get_all (saved_each_second 2)) = Inr (Some [nth_saved 1, nth_saved 0])"
    by (simp add: get_all_ok [OF t2] order_by_ts_desc_def nth_saved_def)
  with t r n' t2 show ?thesis unfolding rows_def by simp
qed

text \<open>
  Two entries saved within one second: \<open>get_all\<close> lists the older one first, so the order
  is not by id within a timestamp, and the first row is not the entry just saved.
\<close>

theorem get_all_same_second_counterexample:
  "fst (get_all (snd (save_entry ''fine'' ''Neutral'' 35 \<lparr>now_utc = 100, utc_offset = 0\<rparr>
          (snd (save_entry ''so tired'' ''Tired'' 55 \<lparr>now_utc = 100, utc_offset = 0\<rparr> fresh_world)))))
     = Inr (Some [\<lparr>e_id = 1, e_text = ''so tired'', e_emotion = ''Tired'', e_stress = 55, e_ts = 100\<rparr>,
                  \<lparr>e_id = 2, e_text = ''fine'', e_emotion = ''Neutral'', e_stress = 35, e_ts = 100\<rparr>])
   \<and> \<not> spec_newest_first
          [\<lparr>e_id = 1, e_text = ''so tired'', e_emotion = ''Tired'', e_stress = 55, e_ts = 100\<rparr>,
           \<lparr>e_id = 2, e_text = ''fine'', e_emotion = ''Neutral'', e_stress = 35, e_ts = 100\<rparr>]"
proof -
  define c where "c = \<lparr>now_utc = 100, utc_offset = 0\<rparr>"
  define w1 where "w1 = snd (save_entry ''so tired'' ''Tired'' 55 c fresh_world)"
  define w2 where "w2 = snd (save_entry ''fine'' ''Neutral'' 35 c w1)"
  have t1: "entries_table (db w1) =
      Some [\<lparr>e_id = 1, e_text = ''so tired'', e_emotion = ''Tired'', e_stress = 55, e_ts = 100\<rparr>]"
    by (simp add: w1_def c_def save_entry_ok [OF fresh_world_table] fresh_world_seq)
  have s1: "seq (db w1) = 1"
    by (simp add: w1_def c_def save_entry_ok [OF fresh_world_table] fresh_world_seq)
  have t2: "entries_table (db w2) =
      Some [\<lparr>e_id = 1, e_text = ''so tired'', e_emotion = ''Tired'', e_stress = 55, e_ts = 100\<rparr>,
            \<lparr>e_id = 2, e_text = ''fine'', e_emotion = ''Neutral'', e_stress = 35, e_ts = 100\<rparr>]"
    by (simp add: w2_def c_def save_entry_ok [OF t1] s1)
  have "fst (get_all w2) =
      Inr (Some [\<lparr>e_id = 1, e_text = ''so tired'', e_emotion = ''Tired'', e_stress = 55, e_ts = 100\<rparr>,
            \<lparr>e_id = 2, e_text = ''fine'', e_emotion = ''Neutral'', e_stress = 35, e_ts = 100\<rparr>])"
    by (simp add: get_all_ok [OF t2] order_by_ts_desc_def)
  then show ?thesis by (simp add: w2_def w1_def c_def spec_newest_first_def)
qed

subsection \<open>Reports and today's entries\<close>

lemma py_max_key_mode:
  assumes "xs \<noteq> []"
  shows "\<exists>r. py_max_key f xs = Inr r \<and> r \<in> set xs \<and> (\<forall>x\<in>set xs. f x \<le> f r)"
proof -
  obtain b bs where xs: "xs = b # bs" using assms by (cases xs) auto
  have "py_max_from f b bs \<in> set xs" using py_max_from_mem [of f b bs] by (simp add: xs)
  moreover have "\<forall>x\<in>set xs. f x \<le> f (py_max_from f b bs)"
    using py_max_from_ge [of _ b bs f] by (simp add: xs)
  ultimately show ?thesis by (simp add: xs)
qed

lemma dominant_mode:
  assumes "set_iteration set_iter" and "emotions \<noteq> []"
  shows "\<exists>label. dominant set_iter emotions = Inr label
           \<and> label \<in> set emotions
           \<and> (\<forall>other. count_list emotions other \<le> count_list emotions label)"
proof -
  have it: "set (set_iter emotions) = set emotions" using assms(1) by (simp add: set_iteration_def)
  then have ne: "set_iter emotions \<noteq> []" using assms(2) by auto
  from py_max_key_mode [OF ne, of "\<lambda>label. int (count_list emotions label)"]
  obtain label where d: "dominant set_iter emotions = Inr label"
    and mem: "label \<in> set emotions"
    and top: "\<forall>x\<in>set emotions. count_list emotions x \<le> count_list emotions label"
    unfolding dominant_def it by auto
  have "\<forall>other. count_list emotions other \<le> count_list emotions label"
  proof
    fix other
    show "count_list emotions other \<le> count_list emotions label"
    proof (cases "other \<in> set emotions")
      case True
      with top show ?thesis by blast
    next
      case False
      then show ?thesis by (simp add: count_list_0_iff)
    qed
  qed
  with d mem show ?thesis by blast
qed

lemma build_report_ok:
  assumes "set_iteration set_iter" and "entries \<noteq> []"
  shows "\<exists>label. dominant set_iter (map e_emotion entries) = Inr label
     \<and> build_report set_iter today entries =
         Inr \<lparr>r_date = today, r_total = length entries,
              r_avg = average_stress (map e_stress entries),
              r_dominant = label, r_lines = report_lines 1 entries\<rparr>"
proof -
  have "map e_emotion entries \<noteq> []" using assms(2) by simp
  from dominant_mode [OF assms(1) this] obtain label
    where "dominant set_iter (map e_emotion entries) = Inr label" by blast
  then show ?thesis by (simp add: build_report_def)
qed

lemma set_iteration_remdups: "set_iteration remdups"
  by (simp add: set_iteration_def)

lemma set_iteration_reversed: "set_iteration reversed_iteration"
  by (simp add: set_iteration_def reversed_iteration_def)

lemma dominant_first_in_iteration:
  assumes "set_iteration set_iter" and "dominant set_iter emotions = Inr label"
  shows "find (\<lambda>l. \<forall>other. count_list emotions other \<le> count_list emotions l)
           (set_iter emotions) = Some label"
proof -
  have it: "set (set_iter emotions) = set emotions" using assms(1) by (simp add: set_iteration_def)
  have eq: "(\<lambda>l. \<forall>y\<in>set (set_iter emotions).
                 int (count_list emotions y) \<le> int (count_list emotions l))
          = (\<lambda>l. \<forall>other. count_list emotions other \<le> count_list emotions l)"
  proof (rule ext)
    fix l
    show "(\<forall>y\<in>set (set_iter emotions).
              int (count_list emotions y) \<le> int (count_list emotions l))
        = (\<forall>other. count_list emotions other \<le> count_list emotions l)"
    proof
      assume h: "\<forall>y\<in>set (set_iter emotions).
              int (count_list emotions y) \<le> int (count_list emotions l)"
      show "\<forall>other. count_list emotions other \<le> count_list emotions l"
      proof
        fix other
        show "count_list emotions other \<le> count_list emotions l"
        proof (cases "other \<in> set emotions")
          case True
          with h it show ?thesis by auto
        next
          case False
          then show ?thesis by (simp add: count_list_0_iff)
        qed
      qed
    next
      assume "\<forall>other. count_list emotions other \<le> count_list emotions l"
      then show "\<forall>y\<in>set (set_iter emotions).
              int (count_list emotions y) \<le> int (count_list emotions l)"
        by simp
    qed
  qed
  from assms(2) have "py_max_key (\<lambda>label. int (count_list emotions label)) (set_iter emotions)
      = Inr label"
    by (simp add: dominant_def)
  from py_max_key_first [OF this] show ?thesis unfolding eq .
qed

text \<open>
  Claim C5, as the code has it. With at least one entry today the report is built, and its
  dominant emotion is a label of today's entries whose count no label exceeds. When several
  labels have the highest count, it is the first of them in the iteration order of the set of
  labels, not in the order of the entries.
\<close>

theorem report_dominant_is_a_mode:
  assumes "set_iteration set_iter" and "entries \<noteq> []"
  shows "\<exists>rep. build_report set_iter today entries = Inr rep
           \<and> r_dominant rep \<in> set (map e_emotion entries)
           \<and> (\<forall>other. count_list (map e_emotion entries) other
                          \<le> count_list (map e_emotion entries) (r_dominant rep))
           \<and> find (\<lambda>label. \<forall>other. count_list (map e_emotion entries) other
                                      \<le> count_list (map e_emotion entries) label)
                  (set_iter (map e_emotion entries)) = Some (r_dominant rep)"
proof -
  have ne: "map e_emotion entries \<noteq> []" using assms(2) by simp
  from dominant_mode [OF assms(1) ne] obtain label
    where d: "dominant set_iter (map e_emotion entries) = Inr label"
      and mem: "label \<in> set (map e_emotion entries)"
      and top: "\<forall>other. count_list (map e_emotion entries) other
                  \<le> count_list (map e_emotion entries) label"
    by blast
  have first: "find (\<lambda>label. \<forall>other. count_list (map e_emotion entries) other
                                      \<le> count_list (map e_emotion entries) label)
                  (set_iter (map e_emotion entries)) = Some label"
    using assms(1) d by (rule dominant_first_in_iteration)
  from d have "build_report set_iter today entries =
         Inr \<lparr>r_date = today, r_total = length entries,
              r_avg = average_stress (map e_stress entries),
              r_dominant = label, r_lines = report_lines 1 entries\<rparr>"
    by (simp add: build_report_def)
  with mem top first show ?thesis by simp
qed

theorem report_dominant_is_a_mode_witness:
  "set_iteration remdups
   \<and> remdups [''Sad'', ''Tired'', ''Sad'', ''Tired''] = [''Sad'', ''Tired'']
   \<and> build_report remdups 0
       [\<lparr>e_id = 1, e_text = ''a'', e_emotion = ''Sad'', e_stress = 65, e_ts = 10\<rparr>,
        \<lparr>e_id = 2, e_text = ''b'', e_emotion = ''Tired'', e_stress = 55, e_ts = 20\<rparr>,
        \<lparr>e_id = 3, e_text = ''c'', e_emotion = ''Sad'', e_stress = 65, e_ts = 30\<rparr>,
        \<lparr>e_id = 4, e_text = ''d'', e_emotion = ''Tired'', e_stress = 55, e_ts = 40\<rparr>]
     = Inr \<lparr>r_date = 0, r_total = 4, r_avg = 60, r_dominant = ''Sad'',
            r_lines = [\<lparr>l_index = 1, l_ts = 10, l_emotion = ''Sad'', l_stress = 65\<rparr>,
                       \<lparr>l_index = 2, l_ts = 20, l_emotion = ''Tired'', l_stress = 55\<rparr>,
                       \<lparr>l_index = 3, l_ts = 30, l_emotion = ''Sad'', l_stress = 65\<rparr>,
                       \<lparr>l_index = 4, l_ts = 40, l_emotion = ''Tired'', l_stress = 55\<rparr>]\<rparr>
   \<and> set_iteration reversed_iteration
   \<and> reversed_iteration [''Sad'', ''Tired'', ''Sad'', ''Tired''] = [''Tired'', ''Sad'']
   \<and> build_report reversed_iteration 0
       [\<lparr>e_id = 1, e_text = ''a'', e_emotion = ''Sad'', e_stress = 65, e_ts = 10\<rparr>,
        \<lparr>e_id = 2, e_text = ''b'', e_emotion = ''Tired'', e_stress = 55, e_ts = 20\<rparr>,
        \<lparr>e_id = 3, e_text = ''c'', e_emotion = ''Sad'', e_stress = 65, e_ts = 30\<rparr>,
        \<lparr>e_id = 4, e_text = ''d'', e_emotion = ''Tired'', e_stress = 55, e_ts = 40\<rparr>]
     = Inr \<lparr>r_date = 0, r_total = 4, r_avg = 60, r_dominant = ''Tired'',
            r_lines = [\<lparr>l_index = 1, l_ts = 10, l_emotion = ''Sad'', l_stress = 65\<rparr>,
                       \<lparr>l_index = 2, l_ts = 20, l_emotion = ''Tired'', l_stress = 55\<rparr>,
                       \<lparr>l_index = 3, l_ts = 30, l_emotion = ''Sad'', l_stress = 65\<rparr>,
                       \<lparr>l_index = 4, l_ts = 40, l_emotion = ''Tired'', l_stress = 55\<rparr>]\<rparr>"
proof -
  define es where "es =
       [\<lparr>e_id = 1, e_text = ''a'', e_emotion = ''Sad'', e_stress = 65, e_ts = 10\<rparr>,
        \<lparr>e_id = 2, e_text = ''b'', e_emotion = ''Tired'', e_stress = 55, e_ts = 20\<rparr>,
        \<lparr>e_id = 3, e_text = ''c'', e_emotion = ''Sad'', e_stress = 65, e_ts = 30\<rparr>,
        \<lparr>e_id = 4, e_text = ''d'', e_emotion = ''Tired'', e_stress = 55, e_ts = 40\<rparr>]"
  have ne: "es \<noteq> []" by (simp add: es_def)
  have em: "map e_emotion es = [''Sad'', ''Tired'', ''Sad'', ''Tired'']" by (simp add: es_def)
  have r1: "remdups [''Sad'', ''Tired'', ''Sad'', ''Tired''] = [''Sad'', ''Tired'']" by simp
  have r2: "reversed_iteration [''Sad'', ''Tired'', ''Sad'', ''Tired''] = [''Tired'', ''Sad'']"
    by (simp add: reversed_iteration_def)
  have c: "count_list [''Sad'', ''Tired'', ''Sad'', ''Tired''] ''Sad'' = 2"
          "count_list [''Sad'', ''Tired'', ''Sad'', ''Tired''] ''Tired'' = 2"
    by simp_all
  have tie: "\<And>l. (\<forall>other. count_list [''Sad'', ''Tired'', ''Sad'', ''Tired''] other
                  \<le> count_list [''Sad'', ''Tired'', ''Sad'', ''Tired''] l)
               \<longleftrightarrow> l = ''Sad'' \<or> l = ''Tired''"
  proof -
    fix l
    show "(\<forall>other. count_list [''Sad'', ''Tired'', ''Sad'', ''Tired''] other
                  \<le> count_list [''Sad'', ''Tired'', ''Sad'', ''Tired''] l)
               \<longleftrightarrow> l = ''Sad'' \<or> l = ''Tired''"
    proof
      assume h: "\<forall>other. count_list [''Sad'', ''Tired'', ''Sad'', ''Tired''] other
                  \<le> count_list [''Sad'', ''Tired'', ''Sad'', ''Tired''] l"
      then have "count_list [''Sad'', ''Tired'', ''Sad'', ''Tired''] ''Sad''
                  \<le> count_list [''Sad'', ''Tired'', ''Sad'', ''Tired''] l" by blast
      then show "l = ''Sad'' \<or> l = ''Tired''" by (auto split: if_splits)
    next
      assume "l = ''Sad'' \<or> l = ''Tired''"
      then show "\<forall>other. count_list [''Sad'', ''Tired'', ''Sad'', ''Tired''] other
                  \<le> count_list [''Sad'', ''Tired'', ''Sad'', ''Tired''] l"
        by auto
    qed
  qed
  from report_dominant_is_a_mode [OF set_iteration_remdups ne, of 0]
  obtain rep1 where b1: "build_report remdups 0 es = Inr rep1"
    and f1: "find (\<lambda>label. \<forall>other. count_list (map e_emotion es) other
                                      \<le> count_list (map e_emotion es) label)
                  (remdups (map e_emotion es)) = Some (r_dominant rep1)"
    by blast
  from f1 have d1: "r_dominant rep1 = ''Sad''" unfolding em r1 tie by simp
  from report_dominant_is_a_mode [OF set_iteration_reversed ne, of 0]
  obtain rep2 where b2: "build_report reversed_iteration 0 es = Inr rep2"
    and f2: "find (\<lambda>label. \<forall>other. count_list (map e_emotion es) other
                                      \<le> count_list (map e_emotion es) label)
                  (reversed_iteration (map e_emotion es)) = Some (r_dominant rep2)"
    by blast
  from f2 have d2: "r_dominant rep2 = ''Tired''" unfolding em r2 tie by simp
  have v1: "build_report remdups 0 es
     = Inr \<lparr>r_date = 0, r_total = 4, r_avg = 60, r_dominant = ''Sad'',
            r_lines = [\<lparr>l_index = 1, l_ts = 10, l_emotion = ''Sad'', l_stress = 65\<rparr>,
                       \<lparr>l_index = 2, l_ts = 20, l_emotion = ''Tired'', l_stress = 55\<rparr>,
                       \<lparr>l_index = 3, l_ts = 30, l_emotion = ''Sad'', l_stress = 65\<rparr>,
                       \<lparr>l_index = 4, l_ts = 40, l_emotion = ''Tired'', l_stress = 55\<rparr>]\<rparr>"
    using b1 d1 by (auto simp: es_def build_report_def average_stress_def split: sum.splits)
  have v2: "build_report reversed_iteration 0 es
     = Inr \<lparr>r_date = 0, r_total = 4, r_avg = 60, r_dominant = ''Tired'',
            r_lines = [\<lparr>l_index = 1, l_ts = 10, l_emotion = ''Sad'', l_stress = 65\<rparr>,
                       \<lparr>l_index = 2, l_ts = 20, l_emotion = ''Tired'', l_stress = 55\<rparr>,
                       \<lparr>l_index = 3, l_ts = 30, l_emotion = ''Sad'', l_stress = 65\<rparr>,
                       \<lparr>l_index = 4, l_ts = 40, l_emotion = ''Tired'', l_stress = 55\<rparr>]\<rparr>"
    using b2 d2 by (auto simp: es_def build_report_def average_stress_def split: sum.splits)
  from v1 v2 r1 r2 set_iteration_remdups set_iteration_reversed show ?thesis
    unfolding es_def by simp
qed

text \<open>
  One Sad entry followed by one Tired entry, the set iterating Tired first: the report names
  Tired, while the label met first in the order of the entries is Sad.
\<close>

theorem dominant_set_order_counterexample:
  "set_iteration reversed_iteration
   \<and> build_report reversed_iteration 0
       [\<lparr>e_id = 1, e_text = ''a'', e_emotion = ''Sad'', e_stress = 65, e_ts = 10\<rparr>,
        \<lparr>e_id = 2, e_text = ''b'', e_emotion = ''Tired'', e_stress = 55, e_ts = 20\<rparr>]
     = Inr \<lparr>r_date = 0, r_total = 2, r_avg = 60, r_dominant = ''Tired'',
            r_lines = [\<lparr>l_index = 1, l_ts = 10, l_emotion = ''Sad'', l_stress = 65\<rparr>,
                       \<lparr>l_index = 2, l_ts = 20, l_emotion = ''Tired'', l_stress = 55\<rparr>]\<rparr>
   \<and> spec_dominant [''Sad'', ''Tired''] = Inr ''Sad''"
  by (simp add: set_iteration_reversed build_report_def dominant_def average_stress_def
      reversed_iteration_def spec_dominant_def)

text \<open>
  Claim C6 at a failing input. In a zone five and a half hours ahead of UTC an entry is saved
  at 02:00 local time on 5 November; its stored timestamp is 20:30 UTC on 4 November.
  \<open>get_today\<close>, called at the same moment, compares the UTC date of the row with the local
  date of the call and returns no row, although the entry was made on the local date of the
  call.
\<close>

theorem get_today_misses_entry_of_local_today:
  "fst (get_today evening_utc (snd (save_entry ''so tired'' ''Tired'' 55 evening_utc fresh_world)))
     = Inr (Some [])
   \<and> spec_today evening_utc
        [\<lparr>e_id = 1, e_text = ''so tired'', e_emotion = ''Tired'', e_stress = 55, e_ts = 1793824200\<rparr>]
     = [\<lparr>e_id = 1, e_text = ''so tired'', e_emotion = ''Tired'', e_stress = 55, e_ts = 1793824200\<rparr>]"
proof -
  define w1 where "w1 = snd (save_entry ''so tired'' ''Tired'' 55 evening_utc fresh_world)"
  have t1: "entries_table (db w1) =
      Some [\<lparr>e_id = 1, e_text = ''so tired'', e_emotion = ''Tired'', e_stress = 55, e_ts = 1793824200\<rparr>]"
    by (simp add: w1_def evening_utc_def save_entry_ok [OF fresh_world_table] fresh_world_seq)
  have "fst (get_today evening_utc w1) = Inr (Some [])"
    by (simp add: get_today_ok [OF t1] date_today_def local_date_def sql_DATE_def evening_utc_def)
  then show ?thesis
    by (simp add: w1_def spec_today_def date_today_def local_date_def evening_utc_def)
qed

lemma db_exec_keeps_files:
  "db_exec query fetch w = (r, w') \<Longrightarrow>
   reports_dir w' = reports_dir w \<and> report_files w' = report_files w"
  by (auto simp: db_exec_def Let_def split: sum.splits prod.splits)

lemma get_today_keeps_files:
  "get_today clk w = (r, w') \<Longrightarrow>
   reports_dir w' = reports_dir w \<and> report_files w' = report_files w"
  unfolding get_today_def by (rule db_exec_keeps_files)

lemma save_report_none:
  "get_today clk w = (Inr (Some []), w1) \<Longrightarrow> save_report set_iter clk w = (Inr None, w1)"
  by (simp add: save_report_def)

lemma save_report_written:
  assumes "get_today clk w = (Inr (Some rows), w1)" and "rows \<noteq> []"
    and "set_iteration set_iter"
  shows "\<exists>label. dominant set_iter (map e_emotion rows) = Inr label
     \<and> save_report set_iter clk w =
        (Inr (Some True),
         w1\<lparr>reports_dir := True,
            report_files := (report_files w1)(date_today clk \<mapsto>
              \<lparr>r_date = date_today clk, r_total = length rows,
               r_avg = average_stress (map e_stress rows),
               r_dominant = label, r_lines = report_lines 1 rows\<rparr>)\<rparr>)"
proof -
  from build_report_ok [OF assms(3,2), of "date_today clk"] obtain label
    where d: "dominant set_iter (map e_emotion rows) = Inr label"
      and b: "build_report set_iter (date_today clk) rows =
         Inr \<lparr>r_date = date_today clk, r_total = length rows,
              r_avg = average_stress (map e_stress rows),
              r_dominant = label, r_lines = report_lines 1 rows\<rparr>"
    by blast
  have "save_report set_iter clk w =
        (Inr (Some True),
         w1\<lparr>reports_dir := True,
            report_files := (report_files w1)(date_today clk \<mapsto>
              \<lparr>r_date = date_today clk, r_total = length rows,
               r_avg = average_stress (map e_stress rows),
               r_dominant = label, r_lines = report_lines 1 rows\<rparr>)\<rparr>)"
    using assms(1,2) b by (simp add: save_report_def Let_def)
  with d show ?thesis by blast
qed

lemma average_stress_floor:
  "average_stress stresses = \<lfloor>real_of_int (sum_list stresses) / real (length stresses)\<rfloor>"
proof -
  have "real (length stresses) = real_of_int (int (length stresses))" by simp
  then show ?thesis
    unfolding average_stress_def by (simp only: floor_divide_of_int_eq)
qed

lemma average_stress_bounds:
  assumes "stresses \<noteq> []"
  shows "average_stress stresses * int (length stresses) \<le> sum_list stresses"
    and "sum_list stresses < (average_stress stresses + 1) * int (length stresses)"
proof -
  have pos: "0 < int (length stresses)" using assms by simp
  define n where "n = int (length stresses)"
  define s where "s = sum_list stresses"
  have n: "0 < n" using pos by (simp add: n_def)
  have "s div n * n \<le> s" using n
    by (metis mult.commute pos_mod_sign cancel_div_mod_rules(1) add.commute le_add_same_cancel2 div_mult_mod_eq)
  then show "average_stress stresses * int (length stresses) \<le> sum_list stresses"
    by (simp add: average_stress_def n_def s_def)
  have "s mod n < n" using n by simp
  then have "s < (s div n + 1) * n"
    by (metis add.commute distrib_right div_mult_mod_eq mult.commute mult_1 add_less_cancel_left)
  then show "sum_list stresses < (average_stress stresses + 1) * int (length stresses)"
    by (simp add: average_stress_def n_def s_def)
qed

text \<open>
  Claim C7. When today has entries, the report that \<open>save_report\<close> writes carries as average
  the floor of the exact quotient of the sum of their stress values by their number: the
  largest integer whose product with the number of entries does not exceed the sum.
\<close>

theorem report_average_is_floor:
  assumes "fst (get_today clk w) = Inr (Some rows)" and "rows \<noteq> []"
    and "set_iteration set_iter"
  shows "\<exists>rep. report_files (snd (save_report set_iter clk w)) (date_today clk) = Some rep
     \<and> r_total rep = length rows
     \<and> r_avg rep = \<lfloor>real_of_int (sum_list (map e_stress rows)) / real (length rows)\<rfloor>
     \<and> r_avg rep * int (length rows) \<le> sum_list (map e_stress rows)
     \<and> sum_list (map e_stress rows) < (r_avg rep + 1) * int (length rows)"
proof -
  define w1 where "w1 = snd (get_today clk w)"
  have g: "get_today clk w = (Inr (Some rows), w1)"
    using assms(1) by (simp add: w1_def prod_eq_iff)
  from save_report_written [OF g assms(2,3)] obtain label where
    s: "save_report set_iter clk w =
        (Inr (Some True),
         w1\<lparr>reports_dir := True,
            report_files := (report_files w1)(date_today clk \<mapsto>
              \<lparr>r_date = date_today clk, r_total = length rows,
               r_avg = average_stress (map e_stress rows),
               r_dominant = label, r_lines = report_lines 1 rows\<rparr>)\<rparr>)"
    by blast
  have ne: "map e_stress rows \<noteq> []" using assms(2) by simp
  have f: "average_stress (map e_stress rows) =
      \<lfloor>real_of_int (sum_list (map e_stress rows)) / real (length rows)\<rfloor>"
    using average_stress_floor [of "map e_stress rows"] by simp
  have lo: "average_stress (map e_stress rows) * int (length rows) \<le> sum_list (map e_stress rows)"
    using average_stress_bounds(1) [OF ne] by simp
  have hi: "sum_list (map e_stress rows) < (average_stress (map e_stress rows) + 1) * int (length rows)"
    using average_stress_bounds(2) [OF ne] by simp
  show ?thesis using f lo hi by (simp add: s)
qed

theorem report_average_is_floor_witness:
  "fst (get_today \<lparr>now_utc = 100, utc_offset = 0\<rparr>
         (snd (save_entry ''b'' ''Sad'' 15 \<lparr>now_utc = 100, utc_offset = 0\<rparr>
           (snd (save_entry ''a'' ''Tired'' 10 \<lparr>now_utc = 100, utc_offset = 0\<rparr> fresh_world)))))
     = Inr (Some [\<lparr>e_id = 1, e_text = ''a'', e_emotion = ''Tired'', e_stress = 10, e_ts = 100\<rparr>,
                  \<lparr>e_id = 2, e_text = ''b'', e_emotion = ''Sad'', e_stress = 15, e_ts = 100\<rparr>])
   \<and> set_iteration remdups
   \<and> map_option r_avg
        (report_files
          (snd (save_report remdups \<lparr>now_utc = 100, utc_offset = 0\<rparr>
            (snd (save_entry ''b'' ''Sad'' 15 \<lparr>now_utc = 100, utc_offset = 0\<rparr>
              (snd (save_entry ''a'' ''Tired'' 10 \<lparr>now_utc = 100, utc_offset = 0\<rparr> fresh_world))))))
          (date_today \<lparr>now_utc = 100, utc_offset = 0\<rparr>))
     = Some 12"
proof -
  define c where "c = \<lparr>now_utc = 100, utc_offset = 0\<rparr>"
  define w1 where "w1 = snd (save_entry ''a'' ''Tired'' 10 c fresh_world)"
  define w2 where "w2 = snd (save_entry ''b'' ''Sad'' 15 c w1)"
  define rows where "rows =
     [\<lparr>e_id = 1, e_text = ''a'', e_emotion = ''Tired'', e_stress = 10, e_ts = 100\<rparr>,
      \<lparr>e_id = 2, e_text = ''b'', e_emotion = ''Sad'', e_stress = 15, e_ts = 100\<rparr>]"
  have t1: "entries_table (db w1) =
      Some [\<lparr>e_id = 1, e_text = ''a'', e_emotion = ''Tired'', e_stress = 10, e_ts = 100\<rparr>]"
    by (simp add: w1_def c_def save_entry_ok [OF fresh_world_table] fresh_world_seq)
  have s1: "seq (db w1) = 1"
    by (simp add: w1_def c_def save_entry_ok [OF fresh_world_table] fresh_world_seq)
  have t2: "entries_table (db w2) = Some rows"
    by (simp add: w2_def c_def rows_def save_entry_ok [OF t1] s1)
  have g: "fst (get_today c w2) = Inr (Some rows)"
    by (simp add: get_today_ok [OF t2] rows_def date_today_def local_date_def sql_DATE_def c_def)
  have ne: "rows \<noteq> []" by (simp add: rows_def)
  from report_average_is_floor [OF g ne set_iteration_remdups]
  obtain rep where f: "report_files (snd (save_report remdups c w2)) (date_today c) = Some rep"
    and a: "r_avg rep * int (length rows) \<le> sum_list (map e_stress rows)"
    and b: "sum_list (map e_stress rows) < (r_avg rep + 1) * int (length rows)"
    by blast
  from a b have "r_avg rep = 12" by (simp add: rows_def)
  with f have "map_option r_avg (report_files (snd (save_report remdups c w2)) (date_today c)) = Some 12"
    by simp
  with g set_iteration_remdups show ?thesis
    unfolding w2_def w1_def c_def rows_def by simp
qed

text \<open>
  Claim C8. When \<open>get_today\<close> returns no entry, \<open>save_report\<close> returns \<open>None\<close> without
  raising, and neither the report folder nor any report file is created or written. When it
  returns at least one entry, \<open>save_report\<close> returns \<open>True\<close>, and the folder and the file of
  the day exist afterwards.
\<close>

theorem save_report_no_data:
  assumes "fst (get_today clk w) = Inr (Some rows)"
  shows "(rows = [] \<longrightarrow>
            fst (save_report set_iter clk w) = Inr None
          \<and> reports_dir (snd (save_report set_iter clk w)) = reports_dir w
          \<and> report_files (snd (save_report set_iter clk w)) = report_files w)
       \<and> (rows \<noteq> [] \<and> set_iteration set_iter \<longrightarrow>
            fst (save_report set_iter clk w) = Inr (Some True)
          \<and> reports_dir (snd (save_report set_iter clk w))
          \<and> report_files (snd (save_report set_iter clk w)) (date_today clk) \<noteq> None)"
proof -
  define w1 where "w1 = snd (get_today clk w)"
  have g: "get_today clk w = (Inr (Some rows), w1)"
    using assms by (simp add: w1_def prod_eq_iff)
  have keep: "reports_dir w1 = reports_dir w \<and> report_files w1 = report_files w"
    using g by (rule get_today_keeps_files)
  have none: "rows = [] \<longrightarrow>
            fst (save_report set_iter clk w) = Inr None
          \<and> reports_dir (snd (save_report set_iter clk w)) = reports_dir w
          \<and> report_files (snd (save_report set_iter clk w)) = report_files w"
  proof
    assume e: "rows = []"
    with g have "save_report set_iter clk w = (Inr None, w1)" by (simp add: save_report_none)
    with keep show "fst (save_report set_iter clk w) = Inr None
          \<and> reports_dir (snd (save_report set_iter clk w)) = reports_dir w
          \<and> report_files (snd (save_report set_iter clk w)) = report_files w"
      by simp
  qed
  have some: "rows \<noteq> [] \<and> set_iteration set_iter \<longrightarrow>
            fst (save_report set_iter clk w) = Inr (Some True)
          \<and> reports_dir (snd (save_report set_iter clk w))
          \<and> report_files (snd (save_report set_iter clk w)) (date_today clk) \<noteq> None"
  proof
    assume h: "rows \<noteq> [] \<and> set_iteration set_iter"
    from save_report_written [OF g] h obtain label where
      "save_report set_iter clk w =
        (Inr (Some True),
         w1\<lparr>reports_dir := True,
            report_files := (report_files w1)(date_today clk \<mapsto>
              \<lparr>r_date = date_today clk, r_total = length rows,
               r_avg = average_stress (map e_stress rows),
               r_dominant = label, r_lines = report_lines 1 rows\<rparr>)\<rparr>)"
      by blast
    then show "fst (save_report set_iter clk w) = Inr (Some True)
          \<and> reports_dir (snd (save_report set_iter clk w))
          \<and> report_files (snd (save_report set_iter clk w)) (date_today clk) \<noteq> None"
      by simp
  qed
  from none some show ?thesis by blast
qed

lemma fresh_world_files:
  "reports_dir fresh_world = False" "report_files fresh_world = Map.empty"
  by (simp_all add: fresh_world_def no_database_def init_db_def db_exec_def sql_create_table_def Let_def)

theorem save_report_no_data_witness:
  "fst (get_today \<lparr>now_utc = 100, utc_offset = 0\<rparr> fresh_world) = Inr (Some [])
   \<and> fst (save_report remdups \<lparr>now_utc = 100, utc_offset = 0\<rparr> fresh_world) = Inr None
   \<and> reports_dir (snd (save_report remdups \<lparr>now_utc = 100, utc_offset = 0\<rparr> fresh_world)) = False
   \<and> report_files (snd (save_report remdups \<lparr>now_utc = 100, utc_offset = 0\<rparr> fresh_world)) = Map.empty
   \<and> fst (get_today \<lparr>now_utc = 100, utc_offset = 0\<rparr>
           (snd (save_entry ''a'' ''Tired'' 55 \<lparr>now_utc = 100, utc_offset = 0\<rparr> fresh_world)))
       = Inr (Some [\<lparr>e_id = 1, e_text = ''a'', e_emotion = ''Tired'', e_stress = 55, e_ts = 100\<rparr>])
   \<and> [\<lparr>e_id = 1, e_text = ''a'', e_emotion = ''Tired'', e_stress = 55, e_ts = 100\<rparr>] \<noteq> []
   \<and> set_iteration remdups
   \<and> fst (save_report remdups \<lparr>now_utc = 100, utc_offset = 0\<rparr>
           (snd (save_entry ''a'' ''Tired'' 55 \<lparr>now_utc = 100, utc_offset = 0\<rparr> fresh_world)))
       = Inr (Some True)"
proof -
  define c where "c = \<lparr>now_utc = 100, utc_offset = 0\<rparr>"
  define w1 where "w1 = snd (save_entry ''a'' ''Tired'' 55 c fresh_world)"
  define row where "row = \<lparr>e_id = 1, e_text = ''a'', e_emotion = ''Tired'', e_stress = 55, e_ts = 100\<rparr>"
  have g0: "fst (get_today c fresh_world) = Inr (Some [])"
    by (simp add: get_today_ok [OF fresh_world_table])
  have t1: "entries_table (db w1) = Some [row]"
    by (simp add: w1_def c_def row_def save_entry_ok [OF fresh_world_table] fresh_world_seq)
  have g1: "fst (get_today c w1) = Inr (Some [row])"
    by (simp add: get_today_ok [OF t1] row_def date_today_def local_date_def sql_DATE_def c_def)
  from save_report_no_data [OF g0, of remdups]
  have a: "fst (save_report remdups c fresh_world) = Inr None"
    and b: "reports_dir (snd (save_report remdups c fresh_world)) = False"
    and d: "report_files (snd (save_report remdups c fresh_world)) = Map.empty"
    by (simp_all add: fresh_world_files)
  from save_report_no_data [OF g1, of remdups] set_iteration_remdups
  have e: "fst (save_report remdups c w1) = Inr (Some True)" by simp
  from g0 a b d g1 e set_iteration_remdups show ?thesis
    unfolding w1_def c_def row_def by simp
qed

subsection \<open>Actions and connections\<close>

lemma db_exec_shape:
  "db_exec query fetch w = (r, w') \<Longrightarrow>
   (\<exists>err. query (db w) = Inl err \<and> db w' = db w) \<or>
   (\<exists>d rows. query (db w) = Inr (d, rows) \<and> db w' = d)"
  by (auto simp: db_exec_def Let_def split: sum.splits prod.splits)

lemma analyze_with_stress:
  "analyze_with cfg t = Inr (e, s) \<Longrightarrow> cfg_stress cfg e = Some s"
  by (auto simp: analyze_with_def Let_def dict_get_def split: sum.splits option.splits if_splits)

lemma quick_table:
  assumes "entries_table (db w) = Some rows"
  shows "entries_table (db (snd (quick cfg e clk w))) =
     (case cfg_stress cfg e of
        None \<Rightarrow> Some rows
      | Some s \<Rightarrow> Some (rows @ [\<lparr>e_id = Suc (fold max (map e_id rows) (seq (db w))),
                                   e_text = ''[Quick: '' @ e @ '']'', e_emotion = e, e_stress = s,
                                   e_ts = now_utc clk\<rparr>]))"
  using assms by (simp add: quick_def dict_get_def save_entry_ok split: option.splits)

lemma analyze_and_save_table:
  assumes "entries_table (db w) = Some rows"
  shows "entries_table (db (snd (analyze_and_save cfg t clk w))) =
     (if py_strip t = [] then Some rows
      else case analyze_with cfg (py_strip t) of
        Inl err \<Rightarrow> Some rows
      | Inr (e, s) \<Rightarrow> Some (rows @ [\<lparr>e_id = Suc (fold max (map e_id rows) (seq (db w))),
                                   e_text = py_strip t, e_emotion = e, e_stress = s,
                                   e_ts = now_utc clk\<rparr>]))"
  using assms by (simp add: analyze_and_save_def Let_def save_entry_ok split: sum.splits prod.splits)

lemma get_today_table:
  "entries_table (db w) = Some rows \<Longrightarrow> entries_table (db (snd (get_today clk w))) = Some rows"
  by (simp add: get_today_ok)

lemma save_report_table:
  assumes "entries_table (db w) = Some rows"
  shows "entries_table (db (snd (save_report set_iter clk w))) = Some rows"
  using assms
  by (simp add: save_report_def get_today_ok Let_def split: sum.splits)

text \<open>
  Claim C9. Let the table hold \<open>rows\<close>, and let any action run under any configuration.
  Afterwards the table holds the same rows, or none when the action is a confirmed clear, or
  the same rows followed by one new row; a new row comes from \<open>quick\<close>, \<open>analyze_q\<close> or
  \<open>analyze_t\<close> only, and its stress value is the constant that the configuration of that
  moment holds for its emotion. So no action rewrites a stored stress value, whatever the
  configuration has become. The last two parts say which row the three writing actions add.
\<close>

theorem stored_stress_is_copied_constant:
  assumes "entries_table (db w) = Some rows"
  shows "\<exists>rows'. entries_table (db (app_step cfg set_iter clk a w)) = Some rows'
      \<and> (rows' = rows
         \<or> (a = Clear True \<and> rows' = [])
         \<or> (\<exists>new. rows' = rows @ [new]
               \<and> (\<exists>x. a = Quick x \<or> a = Analyze_q x \<or> a = Analyze_t x)
               \<and> cfg_stress cfg (e_emotion new) = Some (e_stress new)))
      \<and> (\<forall>e s. a = Quick e \<and> cfg_stress cfg e = Some s \<longrightarrow>
            rows' = rows @ [\<lparr>e_id = Suc (fold max (map e_id rows) (seq (db w))),
                             e_text = ''[Quick: '' @ e @ '']'', e_emotion = e, e_stress = s,
                             e_ts = now_utc clk\<rparr>])
      \<and> (\<forall>t e s. (a = Analyze_q t \<or> a = Analyze_t t) \<and> py_strip t \<noteq> []
                   \<and> analyze_with cfg (py_strip t) = Inr (e, s) \<longrightarrow>
            rows' = rows @ [\<lparr>e_id = Suc (fold max (map e_id rows) (seq (db w))),
                             e_text = py_strip t, e_emotion = e, e_stress = s,
                             e_ts = now_utc clk\<rparr>])"
proof (cases a)
  case (Quick e)
  show ?thesis
  proof (cases "cfg_stress cfg e")
    case None
    then show ?thesis using Quick quick_table [OF assms, of cfg e clk] by simp
  next
    case (Some s)
    then show ?thesis using Quick quick_table [OF assms, of cfg e clk] by simp
  qed
next
  case (Analyze_q t)
  show ?thesis
  proof (cases "py_strip t = []")
    case True
    then show ?thesis
      using Analyze_q analyze_and_save_table [OF assms, of cfg t clk] by (simp add: analyze_q_def)
  next
    case False
    show ?thesis
    proof (cases "analyze_with cfg (py_strip t)")
      case (Inl err)
      then show ?thesis
        using Analyze_q False analyze_and_save_table [OF assms, of cfg t clk]
        by (simp add: analyze_q_def)
    next
      case (Inr p)
      obtain e s where p: "p = (e, s)" by (cases p)
      have "cfg_stress cfg e = Some s" using Inr p by (simp add: analyze_with_stress)
      then show ?thesis
        using Analyze_q False Inr p analyze_and_save_table [OF assms, of cfg t clk]
        by (simp add: analyze_q_def)
    qed
  qed
next
  case (Analyze_t t)
  show ?thesis
  proof (cases "py_strip t = []")
    case True
    then show ?thesis
      using Analyze_t analyze_and_save_table [OF assms, of cfg t clk] by (simp add: analyze_t_def)
  next
    case False
    show ?thesis
    proof (cases "analyze_with cfg (py_strip t)")
      case (Inl err)
      then show ?thesis
        using Analyze_t False analyze_and_save_table [OF assms, of cfg t clk]
        by (simp add: analyze_t_def)
    next
      case (Inr p)
      obtain e s where p: "p = (e, s)" by (cases p)
      have "cfg_stress cfg e = Some s" using Inr p by (simp add: analyze_with_stress)
      then show ?thesis
        using Analyze_t False Inr p analyze_and_save_table [OF assms, of cfg t clk]
        by (simp add: analyze_t_def)
    qed
  qed
next
  case Save_r
  then show ?thesis using save_report_table [OF assms, of set_iter clk] by simp
next
  case (Clear confirmed)
  then show ?thesis using assms clear_all_ok [OF assms] by (cases confirmed) simp_all
next
  case Get_counts
  then show ?thesis using assms get_counts_ok [OF assms] by simp
next
  case Get_all
  then show ?thesis using assms get_all_ok [OF assms] by simp
next
  case Get_today
  then show ?thesis using get_today_table [OF assms, of clk] by simp
qed

theorem stored_stress_is_copied_constant_witness:
  "entries_table (db (app_step reference remdups \<lparr>now_utc = 100, utc_offset = 0\<rparr> (Quick ''Sad'') fresh_world))
     = Some [\<lparr>e_id = 1, e_text = ''[Quick: Sad]'', e_emotion = ''Sad'', e_stress = 65, e_ts = 100\<rparr>]
   \<and> entries_table
        (db (app_step (reference\<lparr>cfg_stress := STRESS(''Sad'' \<mapsto> 10)\<rparr>) remdups
               \<lparr>now_utc = 200, utc_offset = 0\<rparr> (Quick ''Sad'')
               (app_step reference remdups \<lparr>now_utc = 100, utc_offset = 0\<rparr> (Quick ''Sad'') fresh_world)))
     = Some [\<lparr>e_id = 1, e_text = ''[Quick: Sad]'', e_emotion = ''Sad'', e_stress = 65, e_ts = 100\<rparr>,
             \<lparr>e_id = 2, e_text = ''[Quick: Sad]'', e_emotion = ''Sad'', e_stress = 10, e_ts = 200\<rparr>]"
proof -
  define w1 where
    "w1 = app_step reference remdups \<lparr>now_utc = 100, utc_offset = 0\<rparr> (Quick ''Sad'') fresh_world"
  define cfg2 where "cfg2 = reference\<lparr>cfg_stress := STRESS(''Sad'' \<mapsto> 10)\<rparr>"
  have s1: "cfg_stress reference ''Sad'' = Some 65" by (simp add: reference_def STRESS_def)
  have s2: "cfg_stress cfg2 ''Sad'' = Some 10" by (simp add: cfg2_def)
  have t1: "entries_table (db w1) =
      Some [\<lparr>e_id = 1, e_text = ''[Quick: Sad]'', e_emotion = ''Sad'', e_stress = 65, e_ts = 100\<rparr>]"
    using stored_stress_is_copied_constant [OF fresh_world_table,
        of reference remdups "\<lparr>now_utc = 100, utc_offset = 0\<rparr>" "Quick ''Sad''"] s1
    by (auto simp: w1_def fresh_world_seq)
  have q1: "seq (db w1) = 1"
    by (simp add: w1_def quick_def dict_get_def s1 save_entry_ok [OF fresh_world_table] fresh_world_seq)
  have t2: "entries_table (db (app_step cfg2 remdups \<lparr>now_utc = 200, utc_offset = 0\<rparr> (Quick ''Sad'') w1)) =
      Some [\<lparr>e_id = 1, e_text = ''[Quick: Sad]'', e_emotion = ''Sad'', e_stress = 65, e_ts = 100\<rparr>,
            \<lparr>e_id = 2, e_text = ''[Quick: Sad]'', e_emotion = ''Sad'', e_stress = 10, e_ts = 200\<rparr>]"
    using stored_stress_is_copied_constant [OF t1,
        of cfg2 remdups "\<lparr>now_utc = 200, utc_offset = 0\<rparr>" "Quick ''Sad''"] s2
    by (auto simp: q1)
  from t1 t2 show ?thesis unfolding w1_def cfg2_def by simp
qed






end
